theory Spec2Isabelle
  imports Complex_Main
begin

section \<open>Event deduplication cache (slack\_backend/utils/cache.py)\<close>

text \<open>
  \<^verbatim>\<open>EventCache\<close> holds an \<^verbatim>\<open>OrderedDict[str, float]\<close> and an integer
  \<^verbatim>\<open>ttl\<close>. The ordered dictionary is an association list in insertion order whose
  keys are distinct. Every method that calls \<^verbatim>\<open>time()\<close> takes that reading as an
  argument; readings and their differences are exact reals (binary64 rounding is not
  modelled).
\<close>

record event_cache =
  cache :: "(string \<times> real) list"
  ttl :: int

definition init_cache :: "int \<Rightarrow> event_cache" where
  "init_cache ttl_seconds = \<lparr>cache = [], ttl = ttl_seconds\<rparr>"

text \<open>\<^verbatim>\<open>d[k] = v\<close> on an ordered dictionary: an existing key keeps its position and
  gets the new value, a new key goes to the end.\<close>

fun od_setitem :: "'k \<Rightarrow> 'v \<Rightarrow> ('k \<times> 'v) list \<Rightarrow> ('k \<times> 'v) list" where
  "od_setitem k v [] = [(k, v)]"
| "od_setitem k v ((k', v') # al) =
     (if k' = k then (k, v) # al else (k', v') # od_setitem k v al)"

text \<open>\<^verbatim>\<open>del d[k]\<close>.\<close>

definition od_delitem :: "'k \<Rightarrow> ('k \<times> 'v) list \<Rightarrow> ('k \<times> 'v) list" where
  "od_delitem k al = filter (\<lambda>p. fst p \<noteq> k) al"

text \<open>\<^verbatim>\<open>k in d\<close>.\<close>

definition od_contains :: "'k \<Rightarrow> ('k \<times> 'v) list \<Rightarrow> bool" where
  "od_contains k al = (k \<in> set (map fst al))"

definition expired_keys :: "event_cache \<Rightarrow> real \<Rightarrow> string list" where
  "expired_keys c now =
     map fst (filter (\<lambda>(key, timestamp). now - timestamp > real_of_int (ttl c)) (cache c))"

definition cleanup :: "event_cache \<Rightarrow> real \<Rightarrow> event_cache" where
  "cleanup c now = c\<lparr>cache := fold od_delitem (expired_keys c now) (cache c)\<rparr>"

text \<open>\<^verbatim>\<open>has_event\<close> returns its answer and the cache after the sweep.\<close>

definition has_event :: "event_cache \<Rightarrow> string \<Rightarrow> real \<Rightarrow> bool \<times> event_cache" where
  "has_event c event_id now =
     (let c' = cleanup c now in (od_contains event_id (cache c'), c'))"

definition add_event :: "event_cache \<Rightarrow> string \<Rightarrow> real \<Rightarrow> event_cache" where
  "add_event c event_id now = c\<lparr>cache := od_setitem event_id now (cache c)\<rparr>"

definition get_age :: "event_cache \<Rightarrow> string \<Rightarrow> real \<Rightarrow> real option" where
  "get_age c event_id now =
     (if \<not> od_contains event_id (cache c) then None
      else map_option (\<lambda>timestamp. now - timestamp) (map_of (cache c) event_id))"

text \<open>A run of \<^verbatim>\<open>add_event\<close> calls, each with its own clock reading.\<close>

definition add_events :: "event_cache \<Rightarrow> (string \<times> real) list \<Rightarrow> event_cache" where
  "add_events c xs = fold (\<lambda>(event_id, now) c'. add_event c' event_id now) xs c"

text \<open>The keys of the dictionary are distinct.\<close>

definition cache_ok :: "event_cache \<Rightarrow> bool" where
  "cache_ok c = distinct (map fst (cache c))"

text \<open>Calls on one cache object, in order: \<^verbatim>\<open>add_event\<close> and \<^verbatim>\<open>has_event\<close>, each
  with the clock reading it gets.\<close>

datatype cache_op = Add string real | Has string real

fun apply_op :: "event_cache \<Rightarrow> cache_op \<Rightarrow> event_cache" where
  "apply_op c (Add event_id now) = add_event c event_id now"
| "apply_op c (Has event_id now) = snd (has_event c event_id now)"

definition run_ops :: "event_cache \<Rightarrow> cache_op list \<Rightarrow> event_cache" where
  "run_ops c ops = foldl apply_op c ops"

section \<open>Python values used by the gateway\<close>

text \<open>
  A Python \<^verbatim>\<open>str\<close> is a \<^typ>\<open>string\<close> whose characters are code points below 256 (what
  an HTTP header value decoded by the server holds); \<^verbatim>\<open>bytes\<close> is a \<^typ>\<open>string\<close> of
  byte values. Exceptions are values of \<open>py_error\<close>.
\<close>

datatype py_error =
    ValueError
  | TypeError
  | KeyError string
  | OverflowError
  | UnicodeDecodeError
  | JSONDecodeError
  | SlackApiError
  | RequestException
  | HTTPException nat
  | OtherError

text \<open>The characters \<^verbatim>\<open>str.strip()\<close> treats as whitespace, below 256.\<close>

definition is_space :: "char \<Rightarrow> bool" where
  "is_space c = (of_char c \<in> {9, 10, 11, 12, 13, 28, 29, 30, 31, 32, 133, 160 :: nat})"

definition strip :: "string \<Rightarrow> string" where
  "strip s = rev (dropWhile is_space (rev (dropWhile is_space s)))"

text \<open>
  \<^verbatim>\<open>int()\<close> skips fewer characters around the digits than \<^verbatim>\<open>str.strip()\<close>: the
  ASCII whitespace (tab, line feed, vertical tab, form feed, carriage return, space) and,
  above 127, the characters it first maps to a space (U+0085 and U+00A0). The separators
  U+001C to U+001F are not skipped: \<^verbatim>\<open>int('\x1f1000')\<close> raises ValueError.
\<close>

definition is_int_space :: "char \<Rightarrow> bool" where
  "is_int_space c = (of_char c \<in> {9, 10, 11, 12, 13, 32, 133, 160 :: nat})"

definition int_strip :: "string \<Rightarrow> string" where
  "int_strip s = rev (dropWhile is_int_space (rev (dropWhile is_int_space s)))"

definition is_digit :: "char \<Rightarrow> bool" where
  "is_digit c = (48 \<le> (of_char c :: nat) \<and> (of_char c :: nat) \<le> 57)"

definition digit_value :: "char \<Rightarrow> nat" where
  "digit_value c = of_char c - 48"

text \<open>The digits of an integer literal: at least one digit, single underscores allowed
  between digits only.\<close>

fun parse_digits :: "string \<Rightarrow> nat list option" where
  "parse_digits [] = None"
| "parse_digits [c] = (if is_digit c then Some [digit_value c] else None)"
| "parse_digits (c # d # cs) =
     (if \<not> is_digit c then None
      else if d = CHR ''_'' then map_option (Cons (digit_value c)) (parse_digits cs)
      else map_option (Cons (digit_value c)) (parse_digits (d # cs)))"

definition split_sign :: "string \<Rightarrow> bool \<times> string" where
  "split_sign s =
     (case s of
        [] \<Rightarrow> (False, [])
      | c # cs \<Rightarrow> if c = CHR ''-'' then (True, cs)
                  else if c = CHR ''+'' then (False, cs) else (False, c # cs))"

text \<open>\<^verbatim>\<open>int(s)\<close> for a string: None stands for the ValueError. The interpreter also
  refuses literals of more than 4300 digits.\<close>

definition py_int :: "string \<Rightarrow> int option" where
  "py_int s =
     (let (negative, body) = split_sign (int_strip s) in
      case parse_digits body of
        None \<Rightarrow> None
      | Some ds \<Rightarrow>
          if length ds > 4300 then None
          else let n = int (foldl (\<lambda>a d. 10 * a + d) 0 ds)
               in Some (if negative then - n else n))"

text \<open>An integer of this magnitude or more does not convert to a float: mixing it with a
  float raises OverflowError.\<close>

definition float_limit :: int where
  "float_limit = 2 ^ 1024 - 2 ^ 970"

text \<open>\<^verbatim>\<open>bytes.decode('utf-8')\<close> succeeds exactly on well-formed UTF-8.\<close>

definition cont :: "char \<Rightarrow> bool" where
  "cont c = (128 \<le> (of_char c :: nat) \<and> (of_char c :: nat) \<le> 191)"

definition in_range :: "nat \<Rightarrow> nat \<Rightarrow> char \<Rightarrow> bool" where
  "in_range lo hi c = (lo \<le> (of_char c :: nat) \<and> (of_char c :: nat) \<le> hi)"

fun valid_utf8 :: "string \<Rightarrow> bool" where
  "valid_utf8 [] = True"
| "valid_utf8 (a # rest) =
     (if in_range 0 127 a then valid_utf8 rest
      else if in_range 194 223 a then
        (case rest of b # r \<Rightarrow> cont b \<and> valid_utf8 r | _ \<Rightarrow> False)
      else if in_range 224 239 a then
        (case rest of
           b # c # r \<Rightarrow>
             (if of_char a = (224 :: nat) then in_range 160 191 b
              else if of_char a = (237 :: nat) then in_range 128 159 b
              else cont b) \<and> cont c \<and> valid_utf8 r
         | _ \<Rightarrow> False)
      else if in_range 240 244 a then
        (case rest of
           b # c # d # r \<Rightarrow>
             (if of_char a = (240 :: nat) then in_range 144 191 b
              else if of_char a = (244 :: nat) then in_range 128 143 b
              else cont b) \<and> cont c \<and> cont d \<and> valid_utf8 r
         | _ \<Rightarrow> False)
      else False)"

text \<open>\<^verbatim>\<open>str.encode()\<close>: the UTF-8 bytes of a string of code points below 256.\<close>

definition encode_char :: "char \<Rightarrow> string" where
  "encode_char c =
     (let n = (of_char c :: nat) in
      if n < 128 then [c] else [char_of (192 + n div 64), char_of (128 + n mod 64)])"

definition encode :: "string \<Rightarrow> string" where
  "encode s = concat (map encode_char s)"

definition is_ascii :: "string \<Rightarrow> bool" where
  "is_ascii s = (\<forall>c \<in> set s. (of_char c :: nat) < 128)"

text \<open>\<^verbatim>\<open>hexdigest()\<close>: two lower-case hexadecimal digits for each byte of the digest.\<close>

definition hex_digit :: "nat \<Rightarrow> char" where
  "hex_digit n = (if n < 10 then char_of (48 + n) else char_of (87 + n))"

definition hex_byte :: "char \<Rightarrow> string" where
  "hex_byte c = [hex_digit ((of_char c :: nat) div 16), hex_digit ((of_char c :: nat) mod 16)]"

definition hexdigest :: "string \<Rightarrow> string" where
  "hexdigest digest = concat (map hex_byte digest)"

text \<open>\<^verbatim>\<open>hmac.compare_digest\<close> on two strings raises TypeError unless both are ASCII.\<close>

definition compare_digest :: "string \<Rightarrow> string \<Rightarrow> py_error + bool" where
  "compare_digest a b = (if is_ascii a \<and> is_ascii b then Inr (a = b) else Inl TypeError)"

section \<open>Signature verification (slack\_backend/handlers/verifier.py)\<close>

text \<open>
  \<^verbatim>\<open>SlackRequestVerifier.verify\<close>. The keyed hash \<open>hmac_sha256 key msg\<close> (the digest bytes
  of HMAC-SHA256) is a parameter, as is the reading \<open>now\<close> of \<^verbatim>\<open>time.time()\<close>. The base
  string is decoded and encoded again by the source; on well-formed UTF-8 that gives the
  body's own bytes back.
\<close>

definition sig_basestring :: "string \<Rightarrow> string \<Rightarrow> string" where
  "sig_basestring timestamp body = ''v0:'' @ encode timestamp @ '':'' @ body"

definition my_signature ::
  "(string \<Rightarrow> string \<Rightarrow> string) \<Rightarrow> string \<Rightarrow> string \<Rightarrow> string \<Rightarrow> string" where
  "my_signature hmac_sha256 signing_secret timestamp body =
     ''v0='' @ hexdigest (hmac_sha256 (encode signing_secret) (sig_basestring timestamp body))"

definition verify ::
  "(string \<Rightarrow> string \<Rightarrow> string) \<Rightarrow> string \<Rightarrow> real \<Rightarrow> string \<Rightarrow> string \<Rightarrow> string
     \<Rightarrow> py_error + bool" where
  "verify hmac_sha256 signing_secret now body timestamp signature =
     (case py_int timestamp of
        None \<Rightarrow> Inl ValueError
      | Some t \<Rightarrow>
          if float_limit \<le> \<bar>t\<bar> then Inl OverflowError
          else if \<bar>now - real_of_int t\<bar> > 60 * 5 then Inr False
          else if \<not> valid_utf8 body then Inl UnicodeDecodeError
          else compare_digest (my_signature hmac_sha256 signing_secret timestamp body) signature)"

section \<open>Events\<close>

text \<open>
  A Slack event is a dictionary; the fields the gateway reads hold strings, so an event is a
  partial map from field names to strings. \<open>event k\<close> is \<^verbatim>\<open>event.get(k)\<close>, with None
  for a missing key.
\<close>

type_synonym event = "string \<rightharpoonup> string"

text \<open>A string or None inside an f-string.\<close>

definition fmt :: "string option \<Rightarrow> string" where
  "fmt v = (case v of None \<Rightarrow> ''None'' | Some s \<Rightarrow> s)"

text \<open>Truth value of a string or None.\<close>

definition truthy :: "string option \<Rightarrow> bool" where
  "truthy v = (case v of None \<Rightarrow> False | Some s \<Rightarrow> s \<noteq> [])"

text \<open>\<^verbatim>\<open>event.get(k, default)\<close>.\<close>

definition get_default :: "event \<Rightarrow> string \<Rightarrow> string \<Rightarrow> string" where
  "get_default event k dflt = (case event k of None \<Rightarrow> dflt | Some v \<Rightarrow> v)"

text \<open>\<^verbatim>\<open>sub in s\<close> for strings.\<close>

fun contains :: "string \<Rightarrow> string \<Rightarrow> bool" where
  "contains sub [] = (sub = [])"
| "contains sub (c # cs) = (take (length sub) (c # cs) = sub \<or> contains sub cs)"

section \<open>Conversation store (agent\_backend/chat\_history.py)\<close>

text \<open>
  One JSONL file per conversation, found by the conversation id with every colon replaced
  by an underscore; a file is the list of the messages appended to it. Opening and writing
  the file are taken to succeed.
\<close>

record message =
  msg_role :: string
  msg_name :: "string option"
  msg_content :: "string option"

type_synonym chat_history = "string \<Rightarrow> message list"

definition replace_char :: "char \<Rightarrow> char \<Rightarrow> string \<Rightarrow> string" where
  "replace_char old new s = map (\<lambda>c. if c = old then new else c) s"

definition history_path :: "string \<Rightarrow> string" where
  "history_path conversation_id = replace_char (CHR '':'') (CHR ''_'') conversation_id @ ''.jsonl''"

definition history_append ::
  "chat_history \<Rightarrow> string \<Rightarrow> string \<Rightarrow> string \<Rightarrow> string option \<Rightarrow> chat_history" where
  "history_append h conversation_id role content name =
     (let path = history_path conversation_id;
          message =
            \<lparr>msg_role = role,
             msg_name =
               (case name of
                  None \<Rightarrow> None
                | Some n \<Rightarrow>
                    if n \<noteq> []
                    then Some (replace_char (CHR ''-'') (CHR ''_'')
                                 (replace_char (CHR ''.'') (CHR ''_'') n))
                    else None),
             msg_content = (if content \<noteq> [] then Some content else None)\<rparr>
      in h(path := h path @ [message]))"

section \<open>Event normalization (slack\_backend/handlers/normalizer.py)\<close>

text \<open>
  \<^verbatim>\<open>re.sub(r'<@[A-Z0-9]+>', '', text)\<close>: the scan goes left to right; where a mention
  starts it is dropped and the scan resumes behind it, anywhere else one character is kept.
  The greedy run of id characters has to be followed by the closing bracket.
\<close>

definition is_id_char :: "char \<Rightarrow> bool" where
  "is_id_char c =
     ((65 \<le> (of_char c :: nat) \<and> (of_char c :: nat) \<le> 90) \<or>
      (48 \<le> (of_char c :: nat) \<and> (of_char c :: nat) \<le> 57))"

text \<open>A match of the pattern at the start of the text: what follows the match.\<close>

definition match_mention :: "string \<Rightarrow> string option" where
  "match_mention s =
     (case s of
        a # b # r \<Rightarrow>
          if a = CHR ''<'' \<and> b = CHR ''@'' \<and> takeWhile is_id_char r \<noteq> [] then
            (case dropWhile is_id_char r of
               c # rest \<Rightarrow> if c = CHR ''>'' then Some rest else None
             | [] \<Rightarrow> None)
          else None
      | _ \<Rightarrow> None)"

function re_sub_mentions :: "string \<Rightarrow> string" where
  "re_sub_mentions [] = []"
| "re_sub_mentions (c # cs) =
     (case match_mention (c # cs) of
        Some rest \<Rightarrow> re_sub_mentions rest
      | None \<Rightarrow> c # re_sub_mentions cs)"
  by pat_completeness auto

lemma match_mention_shorter: "match_mention s = Some rest \<Longrightarrow> length rest < length s"
proof -
  assume m: "match_mention s = Some rest"
  then obtain a b r where s: "s = a # b # r"
    by (cases s rule: list.exhaust; cases "tl s") (auto simp: match_mention_def)
  from m have "dropWhile is_id_char r = CHR ''>'' # rest"
    unfolding s match_mention_def
    by (auto split: if_splits list.splits)
  then have "length rest < length (dropWhile is_id_char r)" by simp
  also have "\<dots> \<le> length r" by (rule length_dropWhile_le)
  finally show ?thesis by (simp add: s)
qed

termination re_sub_mentions
  by (relation "measure length") (auto dest: match_mention_shorter)

definition clean_bot_mentions :: "string \<Rightarrow> string" where
  "clean_bot_mentions text = strip (re_sub_mentions text)"

text \<open>The \<^verbatim>\<open>AgentRequest\<close> built by the normalizer.\<close>

record source =
  src_platform :: string
  src_workspace :: string
  src_channel :: string
  src_thread_ts :: string
  src_user_id :: string
  src_username :: string

record agent_request =
  req_id :: string
  req_timestamp :: string
  req_source :: source
  req_agent :: "(string \<times> string) list"
  req_text :: string
  req_raw_text :: string
  req_context :: "(string \<times> string) list"

text \<open>The reply part of an \<^verbatim>\<open>AgentResponse\<close> dictionary.\<close>

record reply =
  reply_channel :: "string option"
  reply_thread_ts :: "string option"
  reply_text :: "string option"

record agent_response =
  resp_reply :: "reply option"

text \<open>
  What the handlers call outside the repository: the Slack client (\<^verbatim>\<open>users_info\<close>,
  giving the user's name or raising, and \<^verbatim>\<open>chat_postMessage\<close>), the HTTP call to the
  agent backend (\<^verbatim>\<open>requests.post\<close>, \<^verbatim>\<open>raise_for_status\<close> and \<^verbatim>\<open>json\<close> together),
  \<^verbatim>\<open>uuid4\<close> and the clock of \<^verbatim>\<open>datetime.utcnow\<close>.
\<close>

record collaborators =
  users_info :: "string option \<Rightarrow> py_error + string"
  chat_postMessage :: "string option \<Rightarrow> string option \<Rightarrow> string \<Rightarrow> py_error + unit"
  requests_post :: "agent_request \<Rightarrow> py_error + agent_response"
  uuid4 :: string
  utcnow_isoformat :: string

text \<open>
  What the handlers do to the outside, in the order they do it: a call of
  \<^verbatim>\<open>chat_history.append\<close> with its arguments, a request sent to the agent backend, a
  call of \<^verbatim>\<open>chat_postMessage\<close>, a call of \<^verbatim>\<open>logger.error\<close> with the exception it
  reports. The world is the conversation files and the effects so far.
\<close>

datatype effect =
    Append string string string "string option"
  | Forward agent_request
  | Post "string option" "string option" string
  | LogError py_error

record world =
  history :: chat_history
  effects :: "effect list"

definition log_error :: "py_error \<Rightarrow> world \<Rightarrow> world" where
  "log_error e w = w\<lparr>effects := effects w @ [LogError e]\<rparr>"

definition fetch_username ::
  "collaborators \<Rightarrow> world \<Rightarrow> string option \<Rightarrow> world \<times> (py_error + string)" where
  "fetch_username env w user_id =
     (case users_info env user_id of
        Inr name \<Rightarrow> (w, Inr name)
      | Inl e \<Rightarrow> if e = SlackApiError then (log_error e w, Inr ''unknown'') else (w, Inl e))"

definition normalize ::
  "collaborators \<Rightarrow> world \<Rightarrow> event \<Rightarrow> world \<times> (py_error + agent_request)" where
  "normalize env w event =
     (case fetch_username env w (event ''user'') of
        (w1, Inl e) \<Rightarrow> (w1, Inl e)
      | (w1, Inr username) \<Rightarrow>
          let raw_text = get_default event ''text'' '''';
              clean_text = clean_bot_mentions raw_text
          in case event ''ts'' of
               None \<Rightarrow> (w1, Inl (KeyError ''ts''))
             | Some ts \<Rightarrow>
                 let thread_ts = get_default event ''thread_ts'' ts
                 in case event ''channel'' of
                      None \<Rightarrow> (w1, Inl (KeyError ''channel''))
                    | Some channel \<Rightarrow>
                        let conversation_id = channel @ '':'' @ thread_ts
                        in case event ''user'' of
                             None \<Rightarrow> (w1, Inl (KeyError ''user''))
                           | Some user \<Rightarrow>
                               (w1,
                                Inr \<lparr>req_id = uuid4 env,
                                     req_timestamp = utcnow_isoformat env @ ''Z'',
                                     req_source =
                                       \<lparr>src_platform = ''slack'',
                                        src_workspace = get_default event ''team'' ''unknown'',
                                        src_channel = channel,
                                        src_thread_ts = thread_ts,
                                        src_user_id = user,
                                        src_username = username\<rparr>,
                                     req_agent =
                                       [(''name'', ''engineer''), (''type'', ''developer'')],
                                     req_text = clean_text,
                                     req_raw_text = raw_text,
                                     req_context = [(''conversation_id'', conversation_id)]\<rparr>))"

section \<open>Forwarding and replying (agent\_forwarder.py, responder.py)\<close>

definition forward_request ::
  "collaborators \<Rightarrow> world \<Rightarrow> agent_request \<Rightarrow> world \<times> (py_error + agent_response)" where
  "forward_request env w agent_request =
     (let w1 = w\<lparr>effects := effects w @ [Forward agent_request]\<rparr>
      in case requests_post env agent_request of
           Inr response \<Rightarrow> (w1, Inr response)
         | Inl e \<Rightarrow>
             if e = RequestException
             then (log_error e w1, Inl (HTTPException 502))
             else (w1, Inl e))"

definition post_message ::
  "collaborators \<Rightarrow> world \<Rightarrow> agent_response \<Rightarrow> world \<times> (py_error + unit)" where
  "post_message env w agent_response =
     (let reply = (case resp_reply agent_response of
                     None \<Rightarrow> \<lparr>reply_channel = None, reply_thread_ts = None, reply_text = None\<rparr>
                   | Some r \<Rightarrow> r);
          channel = reply_channel reply;
          thread_ts = reply_thread_ts reply;
          text = (case reply_text reply of None \<Rightarrow> '''' | Some t \<Rightarrow> t);
          w1 = w\<lparr>effects := effects w @ [Post channel thread_ts text]\<rparr>
      in case chat_postMessage env channel thread_ts text of
           Inr u \<Rightarrow> (w1, Inr ())
         | Inl e \<Rightarrow>
             if e = SlackApiError then (log_error e w1, Inl e) else (w1, Inl e))"

section \<open>The gateway (slack\_backend/handlers/slack\_gateway.py)\<close>

text \<open>
  A float as \<^verbatim>\<open>float(event_ts)\<close> may give it: a real number, an infinity or NaN.
\<close>

datatype pyfloat = Finite real | PosInf | NegInf | NaN

text \<open>\<^verbatim>\<open>now - x\<close> for a finite clock reading, and \<^verbatim>\<open>a > bound\<close>.\<close>

definition float_rsub :: "real \<Rightarrow> pyfloat \<Rightarrow> pyfloat" where
  "float_rsub now x =
     (case x of Finite r \<Rightarrow> Finite (now - r) | PosInf \<Rightarrow> NegInf | NegInf \<Rightarrow> PosInf | NaN \<Rightarrow> NaN)"

definition float_gt :: "pyfloat \<Rightarrow> real \<Rightarrow> bool" where
  "float_gt a bound =
     (case a of Finite r \<Rightarrow> r > bound | PosInf \<Rightarrow> True | NegInf \<Rightarrow> False | NaN \<Rightarrow> False)"

text \<open>
  The parsed request body: the fields the handler reads. \<^verbatim>\<open>json_loads\<close> stands for
  \<^verbatim>\<open>await request.json()\<close> (None: the body is not JSON), \<^verbatim>\<open>py_float\<close> for
  \<^verbatim>\<open>float\<close> on a string (None: ValueError), \<^verbatim>\<open>hmac_digest\<close> for HMAC-SHA256.
\<close>

record payload =
  payload_type :: "string option"
  payload_challenge :: "string option"
  payload_event :: "event option"

record python =
  hmac_digest :: "string \<Rightarrow> string \<Rightarrow> string"
  json_loads :: "string \<Rightarrow> payload option"
  py_float :: "string \<Rightarrow> pyfloat option"

record request =
  x_slack_request_timestamp :: "string option"
  x_slack_signature :: "string option"
  body_bytes :: string

text \<open>The readings of \<^verbatim>\<open>time()\<close> one call of the handler makes, in the order it makes
  them: in \<^verbatim>\<open>verify\<close>, for the event's age, in \<^verbatim>\<open>has_event\<close>, in \<^verbatim>\<open>get_age\<close> and
  in \<^verbatim>\<open>add_event\<close>.\<close>

record clock =
  t_verify :: real
  t_fresh :: real
  t_has :: real
  t_age :: real
  t_add :: real

record gateway =
  signing_secret :: string
  bot_user_id :: "string option"
  event_cache :: event_cache

text \<open>A call of \<^verbatim>\<open>background_tasks.add_task\<close> with \<^verbatim>\<open>_process_event_async\<close>.\<close>

record task =
  task_event :: event
  task_event_type :: "string option"
  task_should_respond :: bool

text \<open>What the handler returns: \<^verbatim>\<open>{"ok": True}\<close> or the challenge.\<close>

datatype response = Ok | Challenge "string option"

datatype outcome = Returned response | Raised py_error

text \<open>The status the framework answers with: 200 for a returned dictionary, the status
  of an \<^verbatim>\<open>HTTPException\<close>, 500 for any other exception leaving the handler.\<close>

definition status_code :: "outcome \<Rightarrow> nat" where
  "status_code out =
     (case out of
        Returned r \<Rightarrow> 200
      | Raised e \<Rightarrow> (case e of HTTPException n \<Rightarrow> n | _ \<Rightarrow> 500))"

definition should_respond :: "event \<Rightarrow> string option \<Rightarrow> bool" where
  "should_respond event event_type =
     (if event_type = Some ''app_mention'' then True
      else if event_type = Some ''message'' then
        (let channel_type = event ''channel_type''
         in if channel_type = Some ''im'' \<or> channel_type = Some ''mpim'' then True else False)
      else False)"

definition event_identity :: "event \<Rightarrow> string" where
  "event_identity event = fmt (event ''type'') @ '':'' @ fmt (event ''ts'')"

text \<open>The branch for \<^verbatim>\<open>event_callback\<close>, from the event to the return.\<close>

definition handle_event_callback ::
  "python \<Rightarrow> gateway \<Rightarrow> clock \<Rightarrow> event \<Rightarrow> outcome \<times> gateway \<times> task list" where
  "handle_event_callback py gw clk event =
     (let event_type = event ''type'';
          event_ts = event ''ts'';
          event_id = fmt event_type @ '':'' @ fmt event_ts
      in case event_ts of
           None \<Rightarrow> (Raised TypeError, gw, [])
         | Some ts \<Rightarrow>
             (case py_float py ts of
                None \<Rightarrow> (Raised ValueError, gw, [])
              | Some x \<Rightarrow>
                  let event_age = float_rsub (t_fresh clk) x
                  in if float_gt event_age 60 then (Returned Ok, gw, [])
                     else
                       let (seen, c1) = has_event (event_cache gw) event_id (t_has clk)
                       in if seen then
                            (case get_age c1 event_id (t_age clk) of
                               None \<Rightarrow> (Raised TypeError, gw\<lparr>event_cache := c1\<rparr>, [])
                             | Some age \<Rightarrow> (Returned Ok, gw\<lparr>event_cache := c1\<rparr>, []))
                          else
                            let gw2 = gw\<lparr>event_cache := add_event c1 event_id (t_add clk)\<rparr>
                            in if event ''subtype'' = Some ''bot_message'' \<or> truthy (event ''bot_id'')
                               then (Returned Ok, gw2, [])
                               else if event_type = Some ''message'' \<and> truthy (bot_user_id gw) \<and>
                                       contains (''<@'' @ fmt (bot_user_id gw) @ ''>'')
                                         (get_default event ''text'' '''')
                               then (Returned Ok, gw2, [])
                               else if event_type = Some ''app_mention'' \<or> event_type = Some ''message''
                               then (Returned Ok, gw2,
                                     [\<lparr>task_event = event, task_event_type = event_type,
                                       task_should_respond = should_respond event event_type\<rparr>])
                               else (Returned Ok, gw2, [])))"

definition handle_event ::
  "python \<Rightarrow> gateway \<Rightarrow> clock \<Rightarrow> request \<Rightarrow> outcome \<times> gateway \<times> task list" where
  "handle_event py gw clk req =
     (case json_loads py (body_bytes req) of
        None \<Rightarrow> (Raised JSONDecodeError, gw, [])
      | Some body \<Rightarrow>
          let timestamp = (case x_slack_request_timestamp req of None \<Rightarrow> '''' | Some v \<Rightarrow> v);
              signature = (case x_slack_signature req of None \<Rightarrow> '''' | Some v \<Rightarrow> v)
          in case verify (hmac_digest py) (signing_secret gw) (t_verify clk) (body_bytes req)
                    timestamp signature of
               Inl e \<Rightarrow> (Raised e, gw, [])
             | Inr valid \<Rightarrow>
                 if \<not> valid then (Raised (HTTPException 401), gw, [])
                 else if payload_type body = Some ''url_verification''
                 then (Returned (Challenge (payload_challenge body)), gw, [])
                 else if payload_type body = Some ''event_callback''
                 then handle_event_callback py gw clk
                        (case payload_event body of None \<Rightarrow> Map.empty | Some e \<Rightarrow> e)
                 else (Returned Ok, gw, []))"

text \<open>
  \<^verbatim>\<open>_process_event_async\<close>: first the body of its \<^verbatim>\<open>try\<close>, giving the exception that
  leaves it if one does, then the \<^verbatim>\<open>except Exception\<close> around it, which logs.
\<close>

definition process_event_body ::
  "collaborators \<Rightarrow> world \<Rightarrow> event \<Rightarrow> bool \<Rightarrow> world \<times> (py_error + unit)" where
  "process_event_body env w event respond =
     (case event ''channel'' of
        None \<Rightarrow> (w, Inl (KeyError ''channel''))
      | Some channel \<Rightarrow>
          (case event ''ts'' of
             None \<Rightarrow> (w, Inl (KeyError ''ts''))
           | Some ts \<Rightarrow>
               let conversation_id = channel @ '':'' @ get_default event ''thread_ts'' ts;
                   looked_up = (case event ''user'' of
                                  None \<Rightarrow> Inl (KeyError ''user'')
                                | Some user \<Rightarrow> users_info env (Some user));
                   (w1, username) =
                     (case looked_up of
                        Inr name \<Rightarrow> (w, name)
                      | Inl e \<Rightarrow> (log_error e w, get_default event ''user'' ''unknown''));
                   text = get_default event ''text'' '''';
                   clean_text = clean_bot_mentions text;
                   w2 = w1\<lparr>history :=
                          history_append (history w1) conversation_id ''user'' clean_text
                            (Some username),
                        effects :=
                          effects w1 @
                            [Append conversation_id ''user'' clean_text (Some username)]\<rparr>
               in if respond then
                    (case normalize env w2 event of
                       (w2', Inl e) \<Rightarrow> (w2', Inl e)
                     | (w2', Inr agent_request) \<Rightarrow>
                         (case forward_request env w2' agent_request of
                            (w3, Inl e) \<Rightarrow> (w3, Inl e)
                          | (w3, Inr agent_response) \<Rightarrow> post_message env w3 agent_response))
                  else (w2, Inr ())))"

definition process_event_async ::
  "collaborators \<Rightarrow> world \<Rightarrow> event \<Rightarrow> string option \<Rightarrow> bool \<Rightarrow> world" where
  "process_event_async env w event event_type respond =
     (case process_event_body env w event respond of
        (w', Inl e) \<Rightarrow> log_error e w'
      | (w', Inr u) \<Rightarrow> w')"

text \<open>\<^verbatim>\<open>SlackEventGateway.__init__\<close>: the cache starts empty with a TTL of 300 seconds.\<close>

definition init_gateway :: "string \<Rightarrow> string option \<Rightarrow> gateway" where
  "init_gateway secret bot_id =
     \<lparr>signing_secret = secret, bot_user_id = bot_id, event_cache = init_cache 300\<rparr>"

text \<open>The background tasks of a delivery run after the response, in the order they were
  added.\<close>

definition run_tasks :: "collaborators \<Rightarrow> world \<Rightarrow> task list \<Rightarrow> world" where
  "run_tasks env w tasks =
     foldl (\<lambda>w' t. process_event_async env w' (task_event t) (task_event_type t)
                      (task_should_respond t)) w tasks"

text \<open>The event the handler takes from a parsed body: \<^verbatim>\<open>body.get("event", {})\<close>.\<close>

definition event_of :: "payload \<Rightarrow> event" where
  "event_of body = (case payload_event body of None \<Rightarrow> Map.empty | Some e \<Rightarrow> e)"

text \<open>The header values the handler passes to \<^verbatim>\<open>verify\<close>: \<^verbatim>\<open>headers.get(name, "")\<close>.\<close>

definition timestamp_header :: "request \<Rightarrow> string" where
  "timestamp_header req = (case x_slack_request_timestamp req of None \<Rightarrow> '''' | Some v \<Rightarrow> v)"

definition signature_header :: "request \<Rightarrow> string" where
  "signature_header req = (case x_slack_signature req of None \<Rightarrow> '''' | Some v \<Rightarrow> v)"

text \<open>A stand-in keyed hash for concrete evaluations (it is not HMAC-SHA256).\<close>

definition toy_hmac :: "string \<Rightarrow> string \<Rightarrow> string" where
  "toy_hmac key msg = key @ msg"

section \<open>Concrete values for the closed instances\<close>

text \<open>
  A clock that gives the same reading to every call, a mention event in a given channel,
  stand-ins for the JSON parser (it knows two bodies, one per channel) and for
  \<^verbatim>\<open>float\<close>, a request signed with the stand-in keyed hash, a gateway as the
  application builds it, and collaborators whose agent backend is down.
\<close>

definition sample_clock :: "real \<Rightarrow> clock" where
  "sample_clock t = \<lparr>t_verify = t, t_fresh = t, t_has = t, t_age = t, t_add = t\<rparr>"

definition mention_event :: "string \<Rightarrow> event" where
  "mention_event channel =
     [''type'' \<mapsto> ''app_mention'', ''ts'' \<mapsto> ''995.5'', ''channel'' \<mapsto> channel,
      ''user'' \<mapsto> ''U123'', ''text'' \<mapsto> ''<@U0BOT> deploy the service'']"

definition callback_payload :: "event \<Rightarrow> payload" where
  "callback_payload event =
     \<lparr>payload_type = Some ''event_callback'', payload_challenge = None,
      payload_event = Some event\<rparr>"

definition sample_json_loads :: "string \<Rightarrow> payload option" where
  "sample_json_loads s =
     (if s = ''{C1}'' then Some (callback_payload (mention_event ''C1''))
      else if s = ''{C2}'' then Some (callback_payload (mention_event ''C2''))
      else None)"

definition sample_float :: "string \<Rightarrow> pyfloat option" where
  "sample_float s = (if s = ''995.5'' then Some (Finite 995.5) else None)"

definition sample_python :: python where
  "sample_python =
     \<lparr>hmac_digest = toy_hmac, json_loads = sample_json_loads, py_float = sample_float\<rparr>"

definition signed_request :: "string \<Rightarrow> string \<Rightarrow> request" where
  "signed_request timestamp body =
     \<lparr>x_slack_request_timestamp = Some timestamp,
      x_slack_signature = Some (my_signature toy_hmac ''secret'' timestamp body),
      body_bytes = body\<rparr>"

definition sample_gateway :: gateway where
  "sample_gateway = init_gateway ''secret'' (Some ''U0BOT'')"

definition backend_down :: collaborators where
  "backend_down =
     \<lparr>users_info = (\<lambda>user. Inr ''alice''),
      chat_postMessage = (\<lambda>channel thread_ts text. Inr ()),
      requests_post = (\<lambda>agent_request. Inl RequestException),
      uuid4 = ''00000000-0000-4000-8000-000000000000'',
      utcnow_isoformat = ''2024-01-01T00:00:00''\<rparr>"

definition empty_world :: world where
  "empty_world = \<lparr>history = (\<lambda>path. []), effects = []\<rparr>"

text \<open>The event of the normalizer's examples, with or without a thread field, and an
  event that has no user field.\<close>

definition thread_event :: "string option \<Rightarrow> event" where
  "thread_event thread =
     (\<lambda>k. if k = ''thread_ts'' then thread
          else [''type'' \<mapsto> ''app_mention'', ''channel'' \<mapsto> ''C1'', ''ts'' \<mapsto> ''100.5'',
                ''user'' \<mapsto> ''U1'', ''text'' \<mapsto> ''<@U123> deploy the service''] k)"

definition anonymous_event :: event where
  "anonymous_event =
     [''type'' \<mapsto> ''message'', ''channel_type'' \<mapsto> ''im'', ''channel'' \<mapsto> ''C1'',
      ''ts'' \<mapsto> ''100.5'', ''text'' \<mapsto> ''<@U123> deploy the service'']"

section \<open>Properties of the event cache\<close>

subsection \<open>Facts about the ordered dictionary\<close>

lemma map_of_od_setitem: "map_of (od_setitem k v al) = (map_of al)(k \<mapsto> v)"
  by (induction al) (auto simp: fun_eq_iff)

lemma keys_od_setitem: "fst ` set (od_setitem k v al) = insert k (fst ` set al)"
proof -
  have "fst ` set (od_setitem k v al) = dom (map_of (od_setitem k v al))"
    by (simp add: dom_map_of_conv_image_fst)
  also have "\<dots> = insert k (dom (map_of al))"
    by (simp add: map_of_od_setitem)
  finally show ?thesis
    by (simp add: dom_map_of_conv_image_fst)
qed

lemma distinct_od_setitem:
  "distinct (map fst al) \<Longrightarrow> distinct (map fst (od_setitem k v al))"
proof (induction al)
  case Nil
  then show ?case by simp
next
  case (Cons p al)
  obtain k' v' where p: "p = (k', v')" by (cases p)
  from Cons show ?case
    unfolding p by (auto simp: keys_od_setitem)
qed

lemma fold_od_delitem:
  "fold od_delitem ks al = filter (\<lambda>p. fst p \<notin> set ks) al"
proof (induction ks arbitrary: al)
  case Nil
  then show ?case by simp
next
  case (Cons k ks)
  have "fold od_delitem (k # ks) al = filter (\<lambda>p. fst p \<notin> set ks) (od_delitem k al)"
    by (simp add: Cons.IH)
  also have "\<dots> = filter (\<lambda>p. fst p \<notin> set (k # ks)) al"
    by (auto simp: od_delitem_def intro: filter_cong)
  finally show ?case .
qed

lemma distinct_filter_keys:
  "distinct (map fst al) \<Longrightarrow> (k, v) \<in> set al \<Longrightarrow> (k, w) \<in> set al \<Longrightarrow> v = w"
  by (metis map_of_is_SomeI option.inject)

lemma cleanup_filter:
  assumes "cache_ok c"
  shows "cache (cleanup c now) =
         filter (\<lambda>(key, timestamp). \<not> now - timestamp > real_of_int (ttl c)) (cache c)"
proof -
  have d: "distinct (map fst (cache c))"
    using assms by (simp add: cache_ok_def)
  have "filter (\<lambda>p. fst p \<notin> set (expired_keys c now)) (cache c) =
        filter (\<lambda>(key, timestamp). \<not> now - timestamp > real_of_int (ttl c)) (cache c)"
  proof (rule filter_cong [OF refl])
    fix p assume p: "p \<in> set (cache c)"
    obtain k t where kt: "p = (k, t)" by (cases p)
    show "(fst p \<notin> set (expired_keys c now)) =
          (case p of (key, timestamp) \<Rightarrow> \<not> now - timestamp > real_of_int (ttl c))"
    proof
      assume "fst p \<notin> set (expired_keys c now)"
      then show "case p of (key, timestamp) \<Rightarrow> \<not> now - timestamp > real_of_int (ttl c)"
        using p unfolding kt expired_keys_def by force
    next
      assume live: "case p of (key, timestamp) \<Rightarrow> \<not> now - timestamp > real_of_int (ttl c)"
      show "fst p \<notin> set (expired_keys c now)"
      proof
        assume "fst p \<in> set (expired_keys c now)"
        then obtain t' where t': "(k, t') \<in> set (cache c)"
          and ex: "now - t' > real_of_int (ttl c)"
          unfolding kt expired_keys_def by auto
        have "t' = t"
          using distinct_filter_keys [OF d t'] p kt by simp
        with ex live kt show False by simp
      qed
    qed
  qed
  then show ?thesis
    by (simp add: cleanup_def fold_od_delitem)
qed

lemma cache_ok_init: "cache_ok (init_cache n)"
  by (simp add: cache_ok_def init_cache_def)

lemma cache_ok_add_event: "cache_ok c \<Longrightarrow> cache_ok (add_event c i t)"
  by (simp add: cache_ok_def add_event_def distinct_od_setitem)

lemma cache_ok_cleanup: "cache_ok c \<Longrightarrow> cache_ok (cleanup c now)"
  by (simp add: cache_ok_def cleanup_def fold_od_delitem distinct_map_filter)

lemma ttl_add_event: "ttl (add_event c i t) = ttl c"
  by (simp add: add_event_def)

lemma ttl_cleanup: "ttl (cleanup c now) = ttl c"
  by (simp add: cleanup_def)

lemma map_of_add_event: "map_of (cache (add_event c i t)) = (map_of (cache c))(i \<mapsto> t)"
  by (simp add: add_event_def map_of_od_setitem)

lemma od_contains_map_of: "od_contains k al = (map_of al k \<noteq> None)"
  by (simp add: od_contains_def map_of_eq_None_iff)

text \<open>What \<^verbatim>\<open>has_event\<close> answers, in terms of the stored timestamp.\<close>

lemma has_event_iff:
  assumes "cache_ok c"
  shows "fst (has_event c i now) =
         (case map_of (cache c) i of None \<Rightarrow> False
          | Some t \<Rightarrow> \<not> now - t > real_of_int (ttl c))"
proof -
  let ?live = "\<lambda>(key, timestamp). \<not> now - timestamp > real_of_int (ttl c)"
  have d: "distinct (map fst (cache c))"
    using assms by (simp add: cache_ok_def)
  have "fst (has_event c i now) = (i \<in> fst ` set (filter ?live (cache c)))"
    by (simp add: has_event_def Let_def od_contains_def cleanup_filter [OF assms])
  also have "\<dots> = (\<exists>t. (i, t) \<in> set (cache c) \<and> \<not> now - t > real_of_int (ttl c))"
    by force
  also have "\<dots> = (\<exists>t. map_of (cache c) i = Some t \<and> \<not> now - t > real_of_int (ttl c))"
    using d by (auto dest: map_of_SomeD)
  also have "\<dots> = (case map_of (cache c) i of None \<Rightarrow> False
                   | Some t \<Rightarrow> \<not> now - t > real_of_int (ttl c))"
    by (simp split: option.splits)
  finally show ?thesis .
qed

lemma cache_ok_apply_op: "cache_ok c \<Longrightarrow> cache_ok (apply_op c op)"
  by (cases op) (simp_all add: cache_ok_add_event has_event_def Let_def cache_ok_cleanup)

lemma ttl_apply_op: "ttl (apply_op c op) = ttl c"
  by (cases op) (simp_all add: ttl_add_event has_event_def Let_def ttl_cleanup)

lemma cache_ok_run_ops: "cache_ok c \<Longrightarrow> cache_ok (run_ops c ops)"
  unfolding run_ops_def by (induction ops arbitrary: c) (simp_all add: cache_ok_apply_op)

lemma ttl_run_ops: "ttl (run_ops c ops) = ttl c"
  unfolding run_ops_def by (induction ops arbitrary: c) (simp_all add: ttl_apply_op)

lemma map_of_filter_distinct:
  "distinct (map fst al) \<Longrightarrow>
   map_of (filter P al) k =
     (case map_of al k of None \<Rightarrow> None | Some v \<Rightarrow> if P (k, v) then Some v else None)"
proof (induction al)
  case Nil
  then show ?case by simp
next
  case (Cons p al)
  obtain k' v' where p: "p = (k', v')" by (cases p)
  from Cons have nk: "map_of al k' = None"
    unfolding p by (simp add: map_of_eq_None_iff)
  from Cons show ?case
    unfolding p using nk by (auto split: option.splits)
qed

lemma map_of_cleanup:
  assumes "cache_ok c"
  shows "map_of (cache (cleanup c now)) i =
         (case map_of (cache c) i of None \<Rightarrow> None
          | Some t \<Rightarrow> if now - t > real_of_int (ttl c) then None else Some t)"
  using assms
  by (simp add: cleanup_filter cache_ok_def map_of_filter_distinct split: option.splits)

lemma map_of_has_event:
  assumes "cache_ok c"
  shows "map_of (cache (snd (has_event c j now))) i =
         (case map_of (cache c) i of None \<Rightarrow> None
          | Some t \<Rightarrow> if now - t > real_of_int (ttl c) then None else Some t)"
  using assms by (simp add: has_event_def Let_def map_of_cleanup)

lemma ttl_has_event: "ttl (snd (has_event c j now)) = ttl c"
  by (simp add: has_event_def Let_def ttl_cleanup)

lemma run_ops_absent:
  assumes "cache_ok c" "map_of (cache c) i = None" "\<forall>t. Add i t \<notin> set ops"
  shows "map_of (cache (run_ops c ops)) i = None"
  using assms unfolding run_ops_def
proof (induction ops arbitrary: c)
  case Nil
  then show ?case by simp
next
  case (Cons op ops)
  have "map_of (cache (apply_op c op)) i = None"
    using Cons.prems by (cases op) (auto simp: map_of_add_event map_of_has_event)
  with Cons show ?case
    by (simp add: cache_ok_apply_op)
qed

lemma run_ops_kept:
  assumes "cache_ok c"
    and "map_of (cache c) i = Some t \<or> (map_of (cache c) i = None \<and> t' - t > real_of_int (ttl c))"
    and "\<forall>s. Add i s \<notin> set ops"
    and "\<forall>j s. Has j s \<in> set ops \<longrightarrow> s \<le> t'"
  shows "map_of (cache (run_ops c ops)) i = Some t \<or>
         (map_of (cache (run_ops c ops)) i = None \<and> t' - t > real_of_int (ttl c))"
  using assms unfolding run_ops_def
proof (induction ops arbitrary: c)
  case Nil
  then show ?case by simp
next
  case (Cons op ops)
  have step: "map_of (cache (apply_op c op)) i = Some t \<or>
      (map_of (cache (apply_op c op)) i = None \<and> t' - t > real_of_int (ttl (apply_op c op)))"
  proof (cases op)
    case (Add j s)
    with Cons.prems show ?thesis
      by (auto simp: map_of_add_event ttl_add_event)
  next
    case (Has j s)
    with Cons.prems have "s \<le> t'" by auto
    with Has Cons.prems(1,2) show ?thesis
      by (auto simp: map_of_has_event ttl_has_event split: if_splits)
  qed
  from Cons.IH [OF cache_ok_apply_op [OF Cons.prems(1)] step] Cons.prems(3,4)
  show ?case by (simp add: ttl_apply_op)
qed


lemma map_of_add_events:
  "distinct (map fst xs) \<Longrightarrow>
   map_of (cache (add_events c xs)) k =
     (case map_of xs k of None \<Rightarrow> map_of (cache c) k | Some t \<Rightarrow> Some t)"
proof (induction xs arbitrary: c)
  case Nil
  then show ?case by (simp add: add_events_def)
next
  case (Cons p xs)
  obtain i t where p: "p = (i, t)" by (cases p)
  have step: "add_events c ((i, t) # xs) = add_events (add_event c i t) xs"
    by (simp add: add_events_def)
  from Cons.prems have ni: "map_of xs i = None"
    unfolding p by (simp add: map_of_eq_None_iff)
  from Cons.prems have "distinct (map fst xs)" by simp
  from Cons.IH [OF this] ni show ?case
    unfolding p step by (auto simp: map_of_add_event split: option.splits)
qed

lemma cache_ok_add_events: "cache_ok c \<Longrightarrow> cache_ok (add_events c xs)"
  unfolding add_events_def
  by (induction xs arbitrary: c) (auto simp: cache_ok_add_event)

lemma ttl_add_events: "ttl (add_events c xs) = ttl c"
  unfolding add_events_def
  by (induction xs arbitrary: c) (auto simp: ttl_add_event)

lemma ttl_init_cache: "ttl (init_cache n) = n"
  by (simp add: init_cache_def)

lemma has_event_add_events:
  assumes "distinct (map fst xs)" "(k, s) \<in> set xs"
  shows "fst (has_event (add_events (init_cache n) xs) k now) = (now - s \<le> real_of_int n)"
proof -
  have "map_of xs k = Some s"
    using assms by simp
  then have "map_of (cache (add_events (init_cache n) xs)) k = Some s"
    by (simp add: map_of_add_events [OF assms(1)])
  then show ?thesis
    by (simp add: has_event_iff [OF cache_ok_add_events [OF cache_ok_init]]
        ttl_add_events ttl_init_cache not_less)
qed

text \<open>
  Claim C3. On a cache built from the empty one by any calls of \<^verbatim>\<open>add_event\<close> and
  \<^verbatim>\<open>has_event\<close>: \<^verbatim>\<open>has_event\<close> answers False for an id that was never added; after
  an add of the id at time \<open>t\<close>, followed by any calls that do not add the id again and
  whose sweeps read the clock no later than \<open>t'\<close>, \<^verbatim>\<open>has_event\<close> at time \<open>t'\<close>
  answers True exactly when \<open>t' - t\<close> is at most the TTL; every \<^verbatim>\<open>has_event\<close> call
  leaves exactly the entries whose age is at most the TTL; and after adding entries with
  distinct ids of which all but the last are older than the TTL, \<^verbatim>\<open>has_event\<close>
  answers False for each of the older ones and True for the last.
\<close>

theorem has_event_ttl_sweep:
  assumes c: "c = run_ops (init_cache n) ops"
  shows "((\<forall>t. Add i t \<notin> set ops) \<longrightarrow> \<not> fst (has_event c i now)) \<and>
    ((\<forall>s. Add i s \<notin> set ops') \<and> (\<forall>j s. Has j s \<in> set ops' \<longrightarrow> s \<le> t') \<longrightarrow>
       fst (has_event (run_ops (add_event c i t) ops') i t') = (t' - t \<le> real_of_int n)) \<and>
    cache (snd (has_event c j now)) =
       filter (\<lambda>(key, timestamp). now - timestamp \<le> real_of_int n) (cache c) \<and>
    (distinct (map fst xs) \<and> xs \<noteq> [] \<and>
       (\<forall>(k, s) \<in> set (butlast xs). now - s > real_of_int n) \<and>
       now - snd (last xs) \<le> real_of_int n \<longrightarrow>
         (\<forall>(k, s) \<in> set (butlast xs). \<not> fst (has_event (add_events (init_cache n) xs) k now)) \<and>
         fst (has_event (add_events (init_cache n) xs) (fst (last xs)) now))"
proof (intro conjI impI)
  have ok: "cache_ok c"
    unfolding c by (rule cache_ok_run_ops [OF cache_ok_init])
  have n: "ttl c = n"
    unfolding c by (simp add: ttl_run_ops ttl_init_cache)
  {
    assume "\<forall>t. Add i t \<notin> set ops"
    then have "map_of (cache c) i = None"
      unfolding c
      by (intro run_ops_absent [OF cache_ok_init]) (simp_all add: init_cache_def)
    then show "\<not> fst (has_event c i now)"
      by (simp add: has_event_iff [OF ok])
  }
  {
    assume a: "(\<forall>s. Add i s \<notin> set ops') \<and> (\<forall>j s. Has j s \<in> set ops' \<longrightarrow> s \<le> t')"
    let ?c = "add_event c i t"
    have ok': "cache_ok ?c" by (rule cache_ok_add_event [OF ok])
    have "map_of (cache ?c) i = Some t" by (simp add: map_of_add_event)
    then have "map_of (cache (run_ops ?c ops')) i = Some t \<or>
      (map_of (cache (run_ops ?c ops')) i = None \<and> t' - t > real_of_int (ttl ?c))"
      using a by (intro run_ops_kept [OF ok']) simp_all
    then show "fst (has_event (run_ops ?c ops') i t') = (t' - t \<le> real_of_int n)"
      by (auto simp: has_event_iff [OF cache_ok_run_ops [OF ok']] ttl_run_ops ttl_add_event n)
  }
  show "cache (snd (has_event c j now)) =
       filter (\<lambda>(key, timestamp). now - timestamp \<le> real_of_int n) (cache c)"
    by (simp add: has_event_def Let_def cleanup_filter [OF ok] n not_less)
  {
    assume a: "distinct (map fst xs) \<and> xs \<noteq> [] \<and>
       (\<forall>(k, s) \<in> set (butlast xs). now - s > real_of_int n) \<and>
       now - snd (last xs) \<le> real_of_int n"
    then have d: "distinct (map fst xs)" and ne: "xs \<noteq> []" by simp_all
    show "\<forall>(k, s) \<in> set (butlast xs). \<not> fst (has_event (add_events (init_cache n) xs) k now)"
    proof (clarify)
      fix k s
      assume m: "(k, s) \<in> set (butlast xs)"
        and h: "fst (has_event (add_events (init_cache n) xs) k now)"
      from m have "(k, s) \<in> set xs" by (rule in_set_butlastD)
      from has_event_add_events [OF d this] h have "now - s \<le> real_of_int n" by simp
      with a m show False by auto
    qed
    have "(fst (last xs), snd (last xs)) \<in> set xs"
      using ne by simp
    from has_event_add_events [OF d this] a
    show "fst (has_event (add_events (init_cache n) xs) (fst (last xs)) now)" by simp
  }
qed


theorem has_event_ttl_sweep_witness:
  "\<not> fst (has_event (run_ops (init_cache 300) [Add ''a'' 0]) ''b'' 1000) \<and>
   fst (has_event (run_ops (add_event (run_ops (init_cache 300) [Add ''a'' 0]) ''b'' 10)
          [Add ''c'' 5, Has ''a'' 50]) ''b'' 100) \<and>
   cache (snd (has_event (run_ops (init_cache 300) [Add ''a'' 0]) ''a'' 1000)) = [] \<and>
   \<not> fst (has_event (add_events (init_cache 300) [(''x'', 0), (''y'', 1000)]) ''x'' 1000) \<and>
   fst (has_event (add_events (init_cache 300) [(''x'', 0), (''y'', 1000)]) ''y'' 1000)"
  using has_event_ttl_sweep [OF refl, where n = 300 and ops = "[Add ''a'' 0]" and i = "''b''"
      and now = 1000 and ops' = "[Add ''c'' 5, Has ''a'' 50]" and t = 10 and t' = 100
      and j = "''a''" and xs = "[(''x'', 0), (''y'', 1000)]"]
  by (simp add: run_ops_def add_event_def init_cache_def)

text \<open>
  Claim C4 as stated fails: a second \<^verbatim>\<open>add_event\<close> of an id at time 10 replaces the
  timestamp 0 stored by the first.
\<close>

theorem add_event_refresh_counterexample:
  "map_of (cache (add_event (add_event (init_cache 300) ''app_mention:100.5'' 0)
      ''app_mention:100.5'' 10)) ''app_mention:100.5'' \<noteq>
   map_of (cache (add_event (init_cache 300) ''app_mention:100.5'' 0)) ''app_mention:100.5''"
  by (simp add: add_event_def init_cache_def)

text \<open>
  Claim C4, amended. \<^verbatim>\<open>add_event\<close> always stores the current clock reading under the
  id, whether or not the id is present: afterwards the stored timestamp is the time of this
  call and \<^verbatim>\<open>get_age\<close> counts from it. An id already present keeps its place in the
  insertion order; a new id goes to the end.
\<close>

theorem add_event_overwrites:
  "map_of (cache (add_event c i t)) i = Some t \<and>
   get_age (add_event c i t) i t' = Some (t' - t) \<and>
   map fst (cache (add_event c i t)) =
     (if od_contains i (cache c) then map fst (cache c) else map fst (cache c) @ [i])"
proof -
  have keys: "map fst (od_setitem i t al) =
      (if od_contains i al then map fst al else map fst al @ [i])" for al :: "(string \<times> real) list"
    by (induction al) (force simp: od_contains_def)+
  show ?thesis
    by (simp add: map_of_add_event get_age_def od_contains_map_of)
       (simp add: add_event_def keys od_contains_map_of)
qed

text \<open>
  Claim C5 as stated fails: with a TTL of 300, an entry added at time 0 and not yet swept
  has \<^verbatim>\<open>get_age\<close> at time 1000 return the float 1000, not None.
\<close>

theorem get_age_expired_counterexample:
  "get_age (add_event (init_cache 300) ''message:100.5'' 0) ''message:100.5'' 1000 = Some 1000
   \<and> 1000 - 0 > real_of_int (ttl (add_event (init_cache 300) ''message:100.5'' 0))"
  by (simp add: get_age_def add_event_def init_cache_def od_contains_def)

text \<open>
  Claim C5, amended. For an entry older than the TTL that is still in the dictionary,
  \<^verbatim>\<open>has_event\<close> answers False (and sweeps it), whereas \<^verbatim>\<open>get_age\<close> makes no TTL
  check and returns the entry's age; \<^verbatim>\<open>get_age\<close> returns None only for an id that is
  not in the dictionary, as it is after the sweep.
\<close>

theorem expired_entry_reads:
  assumes "cache_ok c" and "map_of (cache c) i = Some t" and "now - t > real_of_int (ttl c)"
  shows "\<not> fst (has_event c i now) \<and>
         get_age c i now = Some (now - t) \<and>
         get_age (snd (has_event c i now)) i now' = None"
  using assms
  by (simp add: has_event_iff get_age_def od_contains_map_of map_of_has_event)

theorem expired_entry_reads_witness:
  "\<not> fst (has_event (add_event (init_cache 300) ''e'' 0) ''e'' 1000) \<and>
   get_age (add_event (init_cache 300) ''e'' 0) ''e'' 1000 = Some 1000 \<and>
   get_age (snd (has_event (add_event (init_cache 300) ''e'' 0) ''e'' 1000)) ''e'' 1001 = None"
proof -
  let ?c = "add_event (init_cache 300) ''e'' 0"
  have 1: "cache_ok ?c" by (simp add: cache_ok_add_event cache_ok_init)
  have 2: "map_of (cache ?c) ''e'' = Some 0" by (simp add: map_of_add_event)
  have 3: "1000 - 0 > real_of_int (ttl ?c)" by (simp add: ttl_add_event init_cache_def)
  from expired_entry_reads [OF 1 2 3, of 1001] show ?thesis by simp
qed

section \<open>Properties of the signature verifier\<close>

lemma of_char_hex_digit:
  "n < 16 \<Longrightarrow> (of_char (hex_digit n) :: nat) = (if n < 10 then 48 + n else 87 + n)"
  by (simp add: hex_digit_def)

lemma hex_digit_inj: "m < 16 \<Longrightarrow> n < 16 \<Longrightarrow> hex_digit m = hex_digit n \<Longrightarrow> m = n"
proof -
  assume m: "m < 16" and n: "n < 16" and e: "hex_digit m = hex_digit n"
  from e have "(of_char (hex_digit m) :: nat) = of_char (hex_digit n)" by simp
  with m n show ?thesis
    by (simp add: of_char_hex_digit split: if_splits)
qed

lemma hex_byte_inj: "hex_byte a = hex_byte b \<Longrightarrow> a = b"
proof -
  assume e: "hex_byte a = hex_byte b"
  let ?a = "of_char a :: nat" and ?b = "of_char b :: nat"
  have la: "?a div 16 < 16" and lb: "?b div 16 < 16"
    by (simp_all add: less_mult_imp_div_less)
  from e have "hex_digit (?a div 16) = hex_digit (?b div 16)"
    and "hex_digit (?a mod 16) = hex_digit (?b mod 16)"
    by (simp_all add: hex_byte_def)
  then have "?a div 16 = ?b div 16" and "?a mod 16 = ?b mod 16"
    using la lb by (auto intro: hex_digit_inj)
  then have "?a = ?b"
    by (metis div_mult_mod_eq)
  then show ?thesis by simp
qed

lemma hexdigest_inj: "hexdigest x = hexdigest y \<Longrightarrow> x = y"
proof (induction x arbitrary: y)
  case Nil
  then show ?case
    by (cases y) (simp_all add: hexdigest_def hex_byte_def)
next
  case (Cons a x)
  show ?case
  proof (cases y)
    case Nil
    with Cons.prems show ?thesis
      by (simp add: hexdigest_def hex_byte_def)
  next
    case (Cons b y')
    with Cons.prems have "hex_byte a @ hexdigest x = hex_byte b @ hexdigest y'"
      by (simp add: hexdigest_def)
    moreover have "length (hex_byte a) = length (hex_byte b)"
      by (simp add: hex_byte_def)
    ultimately have "hex_byte a = hex_byte b" and "hexdigest x = hexdigest y'"
      by simp_all
    with Cons.IH Cons show ?thesis
      by (simp add: hex_byte_inj)
  qed
qed

lemma is_ascii_hexdigest: "is_ascii (hexdigest d)"
proof -
  have "(of_char (hex_digit n) :: nat) < 128" if "n < 16" for n
    using that by (simp add: of_char_hex_digit)
  moreover have "(of_char c :: nat) div 16 < 16" for c
    by (simp add: less_mult_imp_div_less)
  ultimately show ?thesis
    by (auto simp: is_ascii_def hexdigest_def hex_byte_def)
qed

lemma is_ascii_my_signature: "is_ascii (my_signature H k ts body)"
  using is_ascii_hexdigest [of "H (encode k) (sig_basestring ts body)"]
  by (simp add: my_signature_def is_ascii_def)

lemma my_signature_eq_iff:
  "(my_signature H k ts body' = my_signature H k ts body) =
   (H (encode k) (sig_basestring ts body') = H (encode k) (sig_basestring ts body))"
  by (auto simp: my_signature_def dest: hexdigest_inj)

lemma verify_in_domain:
  assumes "py_int timestamp = Some t" "\<bar>t\<bar> < float_limit" "valid_utf8 body"
  shows "verify H k now body timestamp signature =
     (if \<bar>now - real_of_int t\<bar> > 300 then Inr False
      else if is_ascii signature then Inr (signature = my_signature H k timestamp body)
      else Inl TypeError)"
  using assms
  by (auto simp: verify_def compare_digest_def is_ascii_my_signature)

lemma verify_true_iff:
  "(verify H k now body timestamp signature = Inr True) =
   (\<exists>t. py_int timestamp = Some t \<and> \<bar>t\<bar> < float_limit \<and> \<bar>now - real_of_int t\<bar> \<le> 300 \<and>
        valid_utf8 body \<and> signature = my_signature H k timestamp body)"
  by (auto simp: verify_def compare_digest_def is_ascii_my_signature split: option.splits)


lemmas py_int_eval =
  py_int_def int_strip_def is_int_space_def split_sign_def is_digit_def digit_value_def

text \<open>
  What \<^verbatim>\<open>verify\<close> does where it returns. It returns True exactly when the timestamp
  is an integer literal within 300 seconds of the clock, the body is well-formed UTF-8 and
  the signature is \<^verbatim>\<open>v0=\<close> followed by the hexadecimal digest of the keyed hash of
  \<^verbatim>\<open>v0:timestamp:body\<close>. For an integer timestamp more than 300 seconds away it
  returns False whatever the body and the signature are. For an integer timestamp, a
  well-formed body and an ASCII signature it returns whether both conditions hold. After
  a call that returned True, any other ASCII signature gives False, and any other
  well-formed body gives False unless its digest is the same.
\<close>

theorem verify_hmac_window:
  "((verify H k now body timestamp signature = Inr True) =
      (\<exists>t. py_int timestamp = Some t \<and> \<bar>t\<bar> < float_limit \<and> \<bar>now - real_of_int t\<bar> \<le> 300 \<and>
           valid_utf8 body \<and>
           signature = ''v0='' @ hexdigest (H (encode k) (''v0:'' @ encode timestamp @ '':'' @ body)))) \<and>
   (py_int timestamp = Some t \<and> \<bar>t\<bar> < float_limit \<and> \<bar>now - real_of_int t\<bar> > 300 \<longrightarrow>
      verify H k now body timestamp signature = Inr False) \<and>
   (py_int timestamp = Some t \<and> \<bar>t\<bar> < float_limit \<and> valid_utf8 body \<and> is_ascii signature \<longrightarrow>
      verify H k now body timestamp signature =
        Inr (\<bar>now - real_of_int t\<bar> \<le> 300 \<and> signature = my_signature H k timestamp body)) \<and>
   (verify H k now body timestamp signature = Inr True \<and> is_ascii signature' \<and>
      signature' \<noteq> signature \<longrightarrow>
      verify H k now body timestamp signature' = Inr False) \<and>
   (verify H k now body timestamp signature = Inr True \<and> valid_utf8 body' \<longrightarrow>
      verify H k now body' timestamp signature =
        Inr (H (encode k) (sig_basestring timestamp body') =
             H (encode k) (sig_basestring timestamp body)))"
proof (intro conjI impI)
  show "(verify H k now body timestamp signature = Inr True) =
      (\<exists>t. py_int timestamp = Some t \<and> \<bar>t\<bar> < float_limit \<and> \<bar>now - real_of_int t\<bar> \<le> 300 \<and>
           valid_utf8 body \<and>
           signature = ''v0='' @ hexdigest (H (encode k) (''v0:'' @ encode timestamp @ '':'' @ body)))"
    by (simp add: verify_true_iff my_signature_def sig_basestring_def)
next
  assume "py_int timestamp = Some t \<and> \<bar>t\<bar> < float_limit \<and> \<bar>now - real_of_int t\<bar> > 300"
  then show "verify H k now body timestamp signature = Inr False"
    by (simp add: verify_def)
next
  assume "py_int timestamp = Some t \<and> \<bar>t\<bar> < float_limit \<and> valid_utf8 body \<and> is_ascii signature"
  then show "verify H k now body timestamp signature =
        Inr (\<bar>now - real_of_int t\<bar> \<le> 300 \<and> signature = my_signature H k timestamp body)"
    by (auto simp: verify_in_domain)
next
  assume a: "verify H k now body timestamp signature = Inr True \<and> is_ascii signature' \<and>
      signature' \<noteq> signature"
  then obtain t where t: "py_int timestamp = Some t" "\<bar>t\<bar> < float_limit"
      "\<bar>now - real_of_int t\<bar> \<le> 300" "valid_utf8 body"
      "signature = my_signature H k timestamp body"
    unfolding verify_true_iff by blast
  with a show "verify H k now body timestamp signature' = Inr False"
    by (auto simp: verify_in_domain)
next
  assume a: "verify H k now body timestamp signature = Inr True \<and> valid_utf8 body'"
  then obtain t where t: "py_int timestamp = Some t" "\<bar>t\<bar> < float_limit"
      "\<bar>now - real_of_int t\<bar> \<le> 300"
      "signature = my_signature H k timestamp body"
    unfolding verify_true_iff by blast
  from a have v: "valid_utf8 body'" by simp
  show "verify H k now body' timestamp signature =
        Inr (H (encode k) (sig_basestring timestamp body') =
             H (encode k) (sig_basestring timestamp body))"
    using t(3) my_signature_eq_iff [of H k timestamp body' body]
    by (auto simp: verify_in_domain [OF t(1,2) v] t(4) is_ascii_my_signature)
qed

theorem verify_hmac_window_witness:
  "verify toy_hmac ''secret'' 1000 ''{}'' ''900'' (my_signature toy_hmac ''secret'' ''900'' ''{}'')
     = Inr True \<and>
   verify toy_hmac ''secret'' 1000 ''{}'' ''600'' (my_signature toy_hmac ''secret'' ''600'' ''{}'')
     = Inr False \<and>
   verify toy_hmac ''secret'' 1000 ''{}'' ''900'' ''v0=00'' = Inr False \<and>
   verify toy_hmac ''secret'' 1000 ''[]'' ''900'' (my_signature toy_hmac ''secret'' ''900'' ''{}'')
     = Inr False"
proof -
  let ?sig = "my_signature toy_hmac ''secret'' ''900'' ''{}''"
  have p9: "py_int ''900'' = Some 900" and p6: "py_int ''600'' = Some 600"
    by (simp_all add: py_int_eval)
  have lim: "\<bar>900 :: int\<bar> < float_limit" "\<bar>600 :: int\<bar> < float_limit"
    by (simp_all add: float_limit_def)
  have v: "valid_utf8 ''{}''" "valid_utf8 ''[]''"
    by (simp_all add: in_range_def)
  have asc: "is_ascii ''v0=00''"
    by (simp add: is_ascii_def)
  have ne: "''v0=00'' \<noteq> ?sig"
    by (simp add: my_signature_def hexdigest_def hex_byte_def toy_hmac_def encode_def encode_char_def)
  have dg: "toy_hmac (encode ''secret'') (sig_basestring ''900'' ''[]'') \<noteq>
            toy_hmac (encode ''secret'') (sig_basestring ''900'' ''{}'')"
    by (simp add: toy_hmac_def sig_basestring_def)
  note th = verify_hmac_window [where H = toy_hmac and k = "''secret''" and now = 1000]
  have 1: "verify toy_hmac ''secret'' 1000 ''{}'' ''900'' ?sig = Inr True"
    using th [where body = "''{}''" and timestamp = "''900''" and signature = ?sig] p9 lim v
    by (simp add: my_signature_def sig_basestring_def)
  have 2: "verify toy_hmac ''secret'' 1000 ''{}'' ''600''
      (my_signature toy_hmac ''secret'' ''600'' ''{}'') = Inr False"
    using th [where body = "''{}''" and timestamp = "''600''" and t = 600] p6 lim
    by simp
  have 3: "verify toy_hmac ''secret'' 1000 ''{}'' ''900'' ''v0=00'' = Inr False"
    using th [where body = "''{}''" and timestamp = "''900''" and signature = ?sig
        and signature' = "''v0=00''"] 1 asc ne
    by simp
  have 4: "verify toy_hmac ''secret'' 1000 ''[]'' ''900'' ?sig = Inr False"
    using th [where body = "''{}''" and timestamp = "''900''" and signature = ?sig
        and body' = "''[]''"] 1 v dg
    by simp
  from 1 2 3 4 show ?thesis by simp
qed

text \<open>
  Claim C1. The claim, like the docstring of \<^verbatim>\<open>verify\<close> (True if the signature is
  valid, False otherwise), has \<^verbatim>\<open>verify\<close> return False for every request that is
  not authentic. The code raises instead: with the clock at 1000, the timestamp
  \<^verbatim>\<open>100.5\<close>, 899.5 seconds old, gives ValueError, and so does the empty timestamp the
  handler passes for an absent header; a body that is not UTF-8, with a timestamp inside
  the window and the matching signature, gives UnicodeDecodeError; a signature changed
  to a non-ASCII character gives TypeError.
\<close>

theorem verify_raises_on_failing_input:
  "verify toy_hmac ''secret'' 1000 ''{}'' ''100.5''
      (my_signature toy_hmac ''secret'' ''100.5'' ''{}'') = Inl ValueError \<and>
   verify toy_hmac ''secret'' 1000 ''{}'' ''''
      (my_signature toy_hmac ''secret'' '''' ''{}'') = Inl ValueError \<and>
   verify toy_hmac ''secret'' 1000 [CHR 0xFF] ''1000''
      (my_signature toy_hmac ''secret'' ''1000'' [CHR 0xFF]) = Inl UnicodeDecodeError \<and>
   verify toy_hmac ''secret'' 1000 ''{}'' ''1000'' [CHR 0xE9] = Inl TypeError"
proof -
  have p: "py_int ''100.5'' = None" "py_int '''' = None" "py_int ''1000'' = Some 1000"
    by (simp_all add: py_int_eval)
  have lim: "\<not> float_limit \<le> \<bar>1000 :: int\<bar>"
    by (simp add: float_limit_def)
  have v: "\<not> valid_utf8 [CHR 0xFF]" "valid_utf8 ''{}''"
    by (simp_all add: in_range_def)
  have a: "\<not> is_ascii [CHR 0xE9]"
    by (simp add: is_ascii_def)
  show ?thesis
    using p lim v a by (simp add: verify_def compare_digest_def)
qed

section \<open>Properties of the gateway admission path\<close>

lemma handle_event_unfold:
  "handle_event py gw clk req =
     (case json_loads py (body_bytes req) of
        None \<Rightarrow> (Raised JSONDecodeError, gw, [])
      | Some body \<Rightarrow>
          (case verify (hmac_digest py) (signing_secret gw) (t_verify clk) (body_bytes req)
                  (timestamp_header req) (signature_header req) of
             Inl e \<Rightarrow> (Raised e, gw, [])
           | Inr valid \<Rightarrow>
               if \<not> valid then (Raised (HTTPException 401), gw, [])
               else if payload_type body = Some ''url_verification''
               then (Returned (Challenge (payload_challenge body)), gw, [])
               else if payload_type body = Some ''event_callback''
               then handle_event_callback py gw clk (event_of body)
               else (Returned Ok, gw, [])))"
  unfolding handle_event_def timestamp_header_def signature_header_def event_of_def Let_def
  by (rule refl)

lemma handle_event_callback_unfold:
  "handle_event_callback py gw clk event =
     (case event ''ts'' of
        None \<Rightarrow> (Raised TypeError, gw, [])
      | Some ts \<Rightarrow>
          (case py_float py ts of
             None \<Rightarrow> (Raised ValueError, gw, [])
           | Some x \<Rightarrow>
               if float_gt (float_rsub (t_fresh clk) x) 60 then (Returned Ok, gw, [])
               else if fst (has_event (event_cache gw) (event_identity event) (t_has clk)) then
                 (case get_age (snd (has_event (event_cache gw) (event_identity event) (t_has clk)))
                         (event_identity event) (t_age clk) of
                    None \<Rightarrow> (Raised TypeError,
                      gw\<lparr>event_cache := snd (has_event (event_cache gw) (event_identity event) (t_has clk))\<rparr>, [])
                  | Some age \<Rightarrow> (Returned Ok,
                      gw\<lparr>event_cache := snd (has_event (event_cache gw) (event_identity event) (t_has clk))\<rparr>, []))
               else if event ''subtype'' = Some ''bot_message'' \<or> truthy (event ''bot_id'')
               then (Returned Ok,
                     gw\<lparr>event_cache := add_event (snd (has_event (event_cache gw) (event_identity event) (t_has clk)))
                         (event_identity event) (t_add clk)\<rparr>, [])
               else if event ''type'' = Some ''message'' \<and> truthy (bot_user_id gw) \<and>
                          contains (''<@'' @ fmt (bot_user_id gw) @ ''>'')
                            (get_default event ''text'' '''')
               then (Returned Ok,
                     gw\<lparr>event_cache := add_event (snd (has_event (event_cache gw) (event_identity event) (t_has clk)))
                         (event_identity event) (t_add clk)\<rparr>, [])
               else if event ''type'' = Some ''app_mention'' \<or> event ''type'' = Some ''message''
               then (Returned Ok,
                     gw\<lparr>event_cache := add_event (snd (has_event (event_cache gw) (event_identity event) (t_has clk)))
                         (event_identity event) (t_add clk)\<rparr>,
                     [\<lparr>task_event = event, task_event_type = event ''type'',
                         task_should_respond = should_respond event (event ''type'')\<rparr>])
               else (Returned Ok,
                     gw\<lparr>event_cache := add_event (snd (has_event (event_cache gw) (event_identity event) (t_has clk)))
                         (event_identity event) (t_add clk)\<rparr>, [])))"
  unfolding handle_event_callback_def Let_def case_prod_beta event_identity_def
  by (rule refl)

lemma get_age_after_has_event:
  assumes "fst (has_event c i now)"
  shows "\<exists>age. get_age (snd (has_event c i now)) i now' = Some age"
proof -
  from assms have "od_contains i (cache (snd (has_event c i now)))"
    by (simp add: has_event_def Let_def)
  then show ?thesis
    by (auto simp: get_age_def od_contains_map_of)
qed


lemma handle_event_admitted:
  assumes "json_loads py (body_bytes req) = Some body"
    and "payload_type body = Some ''event_callback''"
    and "verify (hmac_digest py) (signing_secret gw) (t_verify clk) (body_bytes req)
           (timestamp_header req) (signature_header req) = Inr True"
  shows "handle_event py gw clk req = handle_event_callback py gw clk (event_of body)"
  using assms by (simp add: handle_event_unfold)

lemma callback_seen:
  assumes "ev ''ts'' = Some ts" and "py_float py ts = Some x"
    and "fst (has_event (event_cache gw) (event_identity ev) (t_has clk))"
  shows "fst (handle_event_callback py gw clk ev) = Returned Ok \<and>
         snd (snd (handle_event_callback py gw clk ev)) = []"
proof -
  obtain age where
    "get_age (snd (has_event (event_cache gw) (event_identity ev) (t_has clk)))
       (event_identity ev) (t_age clk) = Some age"
    using get_age_after_has_event [OF assms(3)] by blast
  with assms show ?thesis
    by (simp add: handle_event_callback_unfold)
qed

lemma callback_new:
  assumes "ev ''ts'' = Some ts" and "py_float py ts = Some x"
    and "\<not> float_gt (float_rsub (t_fresh clk) x) 60"
    and "\<not> fst (has_event (event_cache gw) (event_identity ev) (t_has clk))"
  shows "fst (handle_event_callback py gw clk ev) = Returned Ok \<and>
         event_cache (fst (snd (handle_event_callback py gw clk ev))) =
           add_event (snd (has_event (event_cache gw) (event_identity ev) (t_has clk)))
             (event_identity ev) (t_add clk)"
  using assms by (simp add: handle_event_callback_unfold)

lemma callback_tasks:
  assumes "snd (snd (handle_event_callback py gw clk ev)) \<noteq> []"
  shows "event_cache (fst (snd (handle_event_callback py gw clk ev))) =
           add_event (snd (has_event (event_cache gw) (event_identity ev) (t_has clk)))
             (event_identity ev) (t_add clk)"
proof -
  obtain ts where ts: "ev ''ts'' = Some ts"
    using assms by (cases "ev ''ts''") (simp_all add: handle_event_callback_unfold)
  obtain x where x: "py_float py ts = Some x"
    using assms ts by (cases "py_float py ts") (simp_all add: handle_event_callback_unfold)
  have fresh: "\<not> float_gt (float_rsub (t_fresh clk) x) 60"
  proof
    assume "float_gt (float_rsub (t_fresh clk) x) 60"
    with assms ts x show False by (simp add: handle_event_callback_unfold)
  qed
  have unseen: "\<not> fst (has_event (event_cache gw) (event_identity ev) (t_has clk))"
  proof
    assume "fst (has_event (event_cache gw) (event_identity ev) (t_has clk))"
    from callback_seen [OF ts x this] assms show False by simp
  qed
  from callback_new [OF ts x fresh unseen] show ?thesis by simp
qed

lemma handle_event_tasks:
  assumes "snd (snd (handle_event py gw clk req)) \<noteq> []"
  shows "\<exists>body. json_loads py (body_bytes req) = Some body \<and>
           handle_event py gw clk req = handle_event_callback py gw clk (event_of body)"
  using assms
  by (auto simp: handle_event_unfold split: option.splits sum.splits if_splits)

lemma run_tasks_Nil: "run_tasks env w [] = w"
  by (simp add: run_tasks_def)

text \<open>
  Claim C2. For a delivery that parses, passes verification, is an \<^verbatim>\<open>event_callback\<close>
  and whose event timestamp is a float literal: if the cache has the event's identity, the
  handler returns \<^verbatim>\<open>{"ok": True}\<close> and schedules no background task, so running its
  tasks changes nothing; if the cache does not have it and the event is not older than 60
  seconds, the handler returns \<^verbatim>\<open>{"ok": True}\<close> with the identity stored in the cache
  under the time of this call; and whenever a task is scheduled, the identity was not in
  the cache before and is in the cache the handler leaves, so the insertion precedes all
  background work.
\<close>

theorem dedup_gate:
  assumes "json_loads py (body_bytes req) = Some body"
    and "payload_type body = Some ''event_callback''"
    and "verify (hmac_digest py) (signing_secret gw) (t_verify clk) (body_bytes req)
           (timestamp_header req) (signature_header req) = Inr True"
    and "event_of body ''ts'' = Some ts" and "py_float py ts = Some x"
  shows "(fst (has_event (event_cache gw) (event_identity (event_of body)) (t_has clk)) \<longrightarrow>
            fst (handle_event py gw clk req) = Returned Ok \<and>
            snd (snd (handle_event py gw clk req)) = [] \<and>
            run_tasks env w (snd (snd (handle_event py gw clk req))) = w) \<and>
         (\<not> fst (has_event (event_cache gw) (event_identity (event_of body)) (t_has clk)) \<and>
          \<not> float_gt (float_rsub (t_fresh clk) x) 60 \<longrightarrow>
            fst (handle_event py gw clk req) = Returned Ok \<and>
            map_of (cache (event_cache (fst (snd (handle_event py gw clk req)))))
              (event_identity (event_of body)) = Some (t_add clk)) \<and>
         (snd (snd (handle_event py gw clk req)) \<noteq> [] \<longrightarrow>
            \<not> fst (has_event (event_cache gw) (event_identity (event_of body)) (t_has clk)) \<and>
            map_of (cache (event_cache (fst (snd (handle_event py gw clk req)))))
              (event_identity (event_of body)) = Some (t_add clk))"
proof -
  let ?ev = "event_of body"
  have h: "handle_event py gw clk req = handle_event_callback py gw clk ?ev"
    by (rule handle_event_admitted [OF assms(1-3)])
  show ?thesis
  proof (intro conjI impI)
    assume s: "fst (has_event (event_cache gw) (event_identity ?ev) (t_has clk))"
    from callback_seen [OF assms(4,5) s]
    show "fst (handle_event py gw clk req) = Returned Ok"
      and "snd (snd (handle_event py gw clk req)) = []"
      and "run_tasks env w (snd (snd (handle_event py gw clk req))) = w"
      by (simp_all add: h run_tasks_Nil)
  next
    assume n: "\<not> fst (has_event (event_cache gw) (event_identity ?ev) (t_has clk)) \<and>
          \<not> float_gt (float_rsub (t_fresh clk) x) 60"
    then have n1: "\<not> float_gt (float_rsub (t_fresh clk) x) 60"
      and n2: "\<not> fst (has_event (event_cache gw) (event_identity ?ev) (t_has clk))"
      by simp_all
    from callback_new [OF assms(4,5) n1 n2]
    show "fst (handle_event py gw clk req) = Returned Ok"
      and "map_of (cache (event_cache (fst (snd (handle_event py gw clk req)))))
              (event_identity ?ev) = Some (t_add clk)"
      by (simp_all add: h map_of_add_event)
  next
    assume t: "snd (snd (handle_event py gw clk req)) \<noteq> []"
    then have t': "snd (snd (handle_event_callback py gw clk ?ev)) \<noteq> []"
      by (simp add: h)
    from callback_tasks [OF t']
    show "map_of (cache (event_cache (fst (snd (handle_event py gw clk req)))))
              (event_identity ?ev) = Some (t_add clk)"
      by (simp add: h map_of_add_event)
    show "\<not> fst (has_event (event_cache gw) (event_identity ?ev) (t_has clk))"
    proof
      assume "fst (has_event (event_cache gw) (event_identity ?ev) (t_has clk))"
      from callback_seen [OF assms(4,5) this] t' show False by simp
    qed
  qed
qed


lemma callback_keeps_secret:
  "signing_secret (fst (snd (handle_event_callback py gw clk ev))) = signing_secret gw"
  by (simp add: handle_event_callback_unfold split: option.split)

lemma cache_ok_has_event: "cache_ok c \<Longrightarrow> cache_ok (snd (has_event c i now))"
  by (simp add: has_event_def Let_def cache_ok_cleanup)

lemma has_event_after_add:
  assumes "cache_ok c"
  shows "fst (has_event (add_event c i t) i t') = (t' - t \<le> real_of_int (ttl c))"
  using has_event_iff [OF cache_ok_add_event [OF assms], of i t i t']
  by (simp add: map_of_add_event ttl_add_event not_less)

lemma callback_seen_cache:
  assumes "ev ''ts'' = Some ts" and "py_float py ts = Some x"
    and "fst (has_event (event_cache gw) (event_identity ev) (t_has clk))"
  shows "event_cache (fst (snd (handle_event_callback py gw clk ev))) =
           (if float_gt (float_rsub (t_fresh clk) x) 60 then event_cache gw
            else snd (has_event (event_cache gw) (event_identity ev) (t_has clk)))"
proof -
  obtain age where
    "get_age (snd (has_event (event_cache gw) (event_identity ev) (t_has clk)))
       (event_identity ev) (t_age clk) = Some age"
    using get_age_after_has_event [OF assms(3)] by blast
  with assms show ?thesis
    by (simp add: handle_event_callback_unfold)
qed

text \<open>
  Claim C8. Two events with the same type and timestamp have the same identity, whatever
  their other fields are. When a first delivery is admitted as new and a second delivery,
  with an event of the same type and timestamp, passes verification and reaches the cache
  within the TTL of the first insertion, then: the first delivery has stored the identity
  under the time of its \<^verbatim>\<open>add_event\<close>; the \<^verbatim>\<open>has_event\<close> call of the second delivery
  finds it; the handler answers the second with \<^verbatim>\<open>{"ok": True}\<close> and schedules nothing;
  the timestamp stored under the identity is still that of the first delivery; and a
  second delivery that passes the freshness gate leaves by the duplicate branch, its
  cache being the one \<^verbatim>\<open>has_event\<close> swept.
\<close>

theorem event_identity_collision:
  assumes "cache_ok (event_cache gw)"
    and "json_loads py (body_bytes req1) = Some body1"
    and "payload_type body1 = Some ''event_callback''"
    and "verify (hmac_digest py) (signing_secret gw) (t_verify clk1) (body_bytes req1)
           (timestamp_header req1) (signature_header req1) = Inr True"
    and "event_of body1 ''ts'' = Some ts" and "py_float py ts = Some x"
    and "\<not> float_gt (float_rsub (t_fresh clk1) x) 60"
    and "\<not> fst (has_event (event_cache gw) (event_identity (event_of body1)) (t_has clk1))"
    and "json_loads py (body_bytes req2) = Some body2"
    and "payload_type body2 = Some ''event_callback''"
    and "verify (hmac_digest py) (signing_secret gw) (t_verify clk2) (body_bytes req2)
           (timestamp_header req2) (signature_header req2) = Inr True"
    and "event_of body2 ''type'' = event_of body1 ''type''"
    and "event_of body2 ''ts'' = event_of body1 ''ts''"
    and "t_has clk2 - t_add clk1 \<le> real_of_int (ttl (event_cache gw))"
  shows "event_identity (event_of body2) = event_identity (event_of body1) \<and>
         map_of (cache (event_cache (fst (snd (handle_event py gw clk1 req1)))))
           (event_identity (event_of body1)) = Some (t_add clk1) \<and>
         fst (has_event (event_cache (fst (snd (handle_event py gw clk1 req1))))
                (event_identity (event_of body2)) (t_has clk2)) \<and>
         fst (handle_event py (fst (snd (handle_event py gw clk1 req1))) clk2 req2) = Returned Ok \<and>
         snd (snd (handle_event py (fst (snd (handle_event py gw clk1 req1))) clk2 req2)) = [] \<and>
         map_of (cache (event_cache (fst (snd
             (handle_event py (fst (snd (handle_event py gw clk1 req1))) clk2 req2)))))
           (event_identity (event_of body2)) = Some (t_add clk1) \<and>
         (\<not> float_gt (float_rsub (t_fresh clk2) x) 60 \<longrightarrow>
            event_cache (fst (snd
              (handle_event py (fst (snd (handle_event py gw clk1 req1))) clk2 req2))) =
            snd (has_event (event_cache (fst (snd (handle_event py gw clk1 req1))))
                   (event_identity (event_of body2)) (t_has clk2)))"
proof -
  let ?e1 = "event_of body1" and ?e2 = "event_of body2"
  let ?gw1 = "fst (snd (handle_event py gw clk1 req1))"
  let ?gw2 = "fst (snd (handle_event py ?gw1 clk2 req2))"
  let ?c1 = "snd (has_event (event_cache gw) (event_identity ?e1) (t_has clk1))"
  have id: "event_identity ?e2 = event_identity ?e1"
    using assms(12,13) by (simp add: event_identity_def)
  have h1: "handle_event py gw clk1 req1 = handle_event_callback py gw clk1 ?e1"
    by (rule handle_event_admitted [OF assms(2-4)])
  have c: "event_cache ?gw1 = add_event ?c1 (event_identity ?e1) (t_add clk1)"
    using callback_new [OF assms(5-8)] by (simp add: h1)
  have stored: "map_of (cache (event_cache ?gw1)) (event_identity ?e1) = Some (t_add clk1)"
    by (simp add: c map_of_add_event)
  have s: "signing_secret ?gw1 = signing_secret gw"
    by (simp add: h1 callback_keeps_secret)
  have h2: "handle_event py ?gw1 clk2 req2 = handle_event_callback py ?gw1 clk2 ?e2"
    by (rule handle_event_admitted [OF assms(9,10)]) (simp add: s assms(11))
  have ok: "cache_ok ?c1"
    by (rule cache_ok_has_event [OF assms(1)])
  have ok1: "cache_ok (event_cache ?gw1)"
    unfolding c by (rule cache_ok_add_event [OF ok])
  have t1: "ttl ?c1 = ttl (event_cache gw)"
    by (simp add: ttl_has_event)
  have t2: "ttl (event_cache ?gw1) = ttl (event_cache gw)"
    by (simp add: c ttl_add_event t1)
  have seen: "fst (has_event (event_cache ?gw1) (event_identity ?e2) (t_has clk2))"
    using assms(14) t1 by (simp add: c id has_event_after_add [OF ok])
  have ts2: "?e2 ''ts'' = Some ts"
    using assms(5,13) by simp
  have res: "fst (handle_event py ?gw1 clk2 req2) = Returned Ok \<and>
      snd (snd (handle_event py ?gw1 clk2 req2)) = []"
    using callback_seen [OF ts2 assms(6) seen] by (simp add: h2)
  have cache2: "event_cache ?gw2 =
      (if float_gt (float_rsub (t_fresh clk2) x) 60 then event_cache ?gw1
       else snd (has_event (event_cache ?gw1) (event_identity ?e2) (t_has clk2)))"
    using callback_seen_cache [OF ts2 assms(6) seen] by (simp add: h2)
  have kept: "map_of (cache (event_cache ?gw2)) (event_identity ?e2) = Some (t_add clk1)"
  proof (cases "float_gt (float_rsub (t_fresh clk2) x) 60")
    case True
    then show ?thesis
      using stored by (simp add: cache2 id)
  next
    case False
    then show ?thesis
      using stored assms(14)
      by (simp add: cache2 id map_of_has_event [OF ok1] t2)
  qed
  from id stored seen res kept cache2 show ?thesis
    by simp
qed


lemma sample_verify:
  "\<bar>now - 1000\<bar> \<le> 300 \<Longrightarrow>
   verify toy_hmac ''secret'' now ''{C1}'' ''1000'' (my_signature toy_hmac ''secret'' ''1000'' ''{C1}'')
     = Inr True"
  "\<bar>now - 1000\<bar> \<le> 300 \<Longrightarrow>
   verify toy_hmac ''secret'' now ''{C2}'' ''1000'' (my_signature toy_hmac ''secret'' ''1000'' ''{C2}'')
     = Inr True"
proof -
  have p: "py_int ''1000'' = Some 1000"
    by (simp add: py_int_eval)
  have lim: "\<bar>1000 :: int\<bar> < float_limit"
    by (simp add: float_limit_def)
  have v: "valid_utf8 ''{C1}''" "valid_utf8 ''{C2}''"
    by (simp_all add: in_range_def)
  show "\<bar>now - 1000\<bar> \<le> 300 \<Longrightarrow>
   verify toy_hmac ''secret'' now ''{C1}'' ''1000'' (my_signature toy_hmac ''secret'' ''1000'' ''{C1}'')
     = Inr True"
    by (simp add: verify_in_domain [OF p lim v(1)] is_ascii_my_signature)
  show "\<bar>now - 1000\<bar> \<le> 300 \<Longrightarrow>
   verify toy_hmac ''secret'' now ''{C2}'' ''1000'' (my_signature toy_hmac ''secret'' ''1000'' ''{C2}'')
     = Inr True"
    by (simp add: verify_in_domain [OF p lim v(2)] is_ascii_my_signature)
qed

lemma sample_identity: "event_identity (mention_event ch) = ''app_mention:995.5''"
  by (simp add: event_identity_def mention_event_def fmt_def)

theorem dedup_gate_witness:
  "fst (handle_event sample_python sample_gateway (sample_clock 1000)
          (signed_request ''1000'' ''{C1}'')) = Returned Ok \<and>
   map_of (cache (event_cache (fst (snd (handle_event sample_python sample_gateway
          (sample_clock 1000) (signed_request ''1000'' ''{C1}''))))))
      ''app_mention:995.5'' = Some 1000 \<and>
   fst (handle_event sample_python
          (sample_gateway\<lparr>event_cache := add_event (init_cache 300) ''app_mention:995.5'' 1000\<rparr>)
          (sample_clock 1010) (signed_request ''1000'' ''{C1}'')) = Returned Ok \<and>
   snd (snd (handle_event sample_python
          (sample_gateway\<lparr>event_cache := add_event (init_cache 300) ''app_mention:995.5'' 1000\<rparr>)
          (sample_clock 1010) (signed_request ''1000'' ''{C1}''))) = []"
proof -
  let ?req = "signed_request ''1000'' ''{C1}''"
  let ?body = "callback_payload (mention_event ''C1'')"
  let ?gw1 = "sample_gateway\<lparr>event_cache := add_event (init_cache 300) ''app_mention:995.5'' 1000\<rparr>"
  have j: "json_loads sample_python (body_bytes ?req) = Some ?body"
    by (simp add: sample_python_def sample_json_loads_def signed_request_def)
  have t: "payload_type ?body = Some ''event_callback''"
    by (simp add: callback_payload_def)
  have e: "event_of ?body = mention_event ''C1''"
    by (simp add: event_of_def callback_payload_def)
  have v: "verify (hmac_digest sample_python) (signing_secret gw) (t_verify (sample_clock now))
      (body_bytes ?req) (timestamp_header ?req) (signature_header ?req) = Inr True"
    if "signing_secret gw = ''secret''" and "\<bar>now - 1000\<bar> \<le> 300" for gw now
    using that sample_verify(1) [of now]
    by (simp add: sample_python_def signed_request_def sample_clock_def timestamp_header_def
        signature_header_def)
  have ts: "event_of ?body ''ts'' = Some ''995.5''"
    unfolding e by (simp add: mention_event_def)
  have f: "py_float sample_python ''995.5'' = Some (Finite 995.5)"
    by (simp add: sample_python_def sample_float_def)
  have unseen: "\<not> fst (has_event (event_cache sample_gateway)
      (event_identity (event_of ?body)) (t_has (sample_clock 1000)))"
    by (simp add: e sample_identity sample_gateway_def init_gateway_def init_cache_def
        has_event_def cleanup_def expired_keys_def od_contains_def)
  have fresh: "\<not> float_gt (float_rsub (t_fresh (sample_clock 1000)) (Finite 995.5)) 60"
    by (simp add: float_gt_def float_rsub_def sample_clock_def)
  have seen: "fst (has_event (event_cache ?gw1)
      (event_identity (event_of ?body)) (t_has (sample_clock 1010)))"
    by (simp add: e sample_identity init_cache_def add_event_def sample_clock_def
        has_event_def cleanup_def expired_keys_def od_contains_def)
  have v0: "verify (hmac_digest sample_python) (signing_secret sample_gateway)
      (t_verify (sample_clock 1000))
      (body_bytes ?req) (timestamp_header ?req) (signature_header ?req) = Inr True"
    by (rule v) (simp_all add: sample_gateway_def init_gateway_def)
  have v1: "verify (hmac_digest sample_python) (signing_secret ?gw1)
      (t_verify (sample_clock 1010))
      (body_bytes ?req) (timestamp_header ?req) (signature_header ?req) = Inr True"
    by (rule v) (simp_all add: sample_gateway_def init_gateway_def)
  from dedup_gate [OF j t v0 ts f, where w = empty_world and env = backend_down] unseen fresh
  have first: "fst (handle_event sample_python sample_gateway (sample_clock 1000) ?req) = Returned Ok \<and>
    map_of (cache (event_cache (fst (snd (handle_event sample_python sample_gateway
          (sample_clock 1000) ?req))))) ''app_mention:995.5'' = Some 1000"
    by (simp add: e sample_identity sample_clock_def)
  from dedup_gate [OF j t v1 ts f, where w = empty_world and env = backend_down] seen
  have second: "fst (handle_event sample_python ?gw1 (sample_clock 1010) ?req) = Returned Ok \<and>
    snd (snd (handle_event sample_python ?gw1 (sample_clock 1010) ?req)) = []"
    by simp
  from first second show ?thesis by simp
qed


lemma sample_json:
  "json_loads sample_python (body_bytes (signed_request ts ''{C1}'')) =
     Some (callback_payload (mention_event ''C1''))"
  "json_loads sample_python (body_bytes (signed_request ts ''{C2}'')) =
     Some (callback_payload (mention_event ''C2''))"
  by (simp_all add: sample_python_def sample_json_loads_def signed_request_def)

lemma sample_payload:
  "payload_type (callback_payload ev) = Some ''event_callback''"
  "event_of (callback_payload ev) = ev"
  by (simp_all add: callback_payload_def event_of_def)

lemma sample_request_verify:
  assumes "signing_secret gw = ''secret''" and "\<bar>now - 1000\<bar> \<le> 300"
  shows "verify (hmac_digest sample_python) (signing_secret gw) (t_verify (sample_clock now))
      (body_bytes (signed_request ''1000'' ''{C1}'')) (timestamp_header (signed_request ''1000'' ''{C1}''))
      (signature_header (signed_request ''1000'' ''{C1}'')) = Inr True"
    and "verify (hmac_digest sample_python) (signing_secret gw) (t_verify (sample_clock now))
      (body_bytes (signed_request ''1000'' ''{C2}'')) (timestamp_header (signed_request ''1000'' ''{C2}''))
      (signature_header (signed_request ''1000'' ''{C2}'')) = Inr True"
  using assms sample_verify [of now]
  by (simp_all add: sample_python_def signed_request_def sample_clock_def timestamp_header_def
      signature_header_def)

lemma sample_event_ts: "mention_event ch ''ts'' = Some ''995.5''"
  and sample_event_type: "mention_event ch ''type'' = Some ''app_mention''"
  by (simp_all add: mention_event_def)

lemma sample_float_ts: "py_float sample_python ''995.5'' = Some (Finite 995.5)"
  by (simp add: sample_python_def sample_float_def)

lemma sample_secret: "signing_secret sample_gateway = ''secret''"
  by (simp add: sample_gateway_def init_gateway_def)

lemma sample_unseen:
  "\<not> fst (has_event (event_cache sample_gateway) ''app_mention:995.5'' now)"
  by (simp add: sample_gateway_def init_gateway_def init_cache_def
      has_event_def cleanup_def expired_keys_def od_contains_def)

lemma sample_fresh: "\<not> float_gt (float_rsub (t_fresh (sample_clock 1000)) (Finite 995.5)) 60"
  by (simp add: float_gt_def float_rsub_def sample_clock_def)

theorem event_identity_collision_witness:
  "event_identity (mention_event ''C2'') = event_identity (mention_event ''C1'') \<and>
   map_of (cache (event_cache (fst (snd (handle_event sample_python sample_gateway
        (sample_clock 1000) (signed_request ''1000'' ''{C1}''))))))
     ''app_mention:995.5'' = Some 1000 \<and>
   fst (has_event (event_cache (fst (snd (handle_event sample_python sample_gateway
        (sample_clock 1000) (signed_request ''1000'' ''{C1}'')))))
     ''app_mention:995.5'' 1010) \<and>
   map_of (cache (event_cache (fst (snd (handle_event sample_python
          (fst (snd (handle_event sample_python sample_gateway (sample_clock 1000)
                       (signed_request ''1000'' ''{C1}''))))
          (sample_clock 1010) (signed_request ''1000'' ''{C2}''))))))
     ''app_mention:995.5'' = Some 1000 \<and>
   fst (handle_event sample_python
          (fst (snd (handle_event sample_python sample_gateway (sample_clock 1000)
                       (signed_request ''1000'' ''{C1}''))))
          (sample_clock 1010) (signed_request ''1000'' ''{C2}'')) = Returned Ok \<and>
   snd (snd (handle_event sample_python
          (fst (snd (handle_event sample_python sample_gateway (sample_clock 1000)
                       (signed_request ''1000'' ''{C1}''))))
          (sample_clock 1010) (signed_request ''1000'' ''{C2}''))) = []"
proof -
  have ok: "cache_ok (event_cache sample_gateway)"
    by (simp add: sample_gateway_def init_gateway_def cache_ok_init)
  have ts: "event_of (callback_payload (mention_event ''C1'')) ''ts'' = Some ''995.5''"
    by (simp add: sample_payload sample_event_ts)
  have unseen: "\<not> fst (has_event (event_cache sample_gateway)
      (event_identity (event_of (callback_payload (mention_event ''C1''))))
      (t_has (sample_clock 1000)))"
    by (simp add: sample_payload sample_identity sample_unseen)
  have ty: "event_of (callback_payload (mention_event ''C2'')) ''type'' =
      event_of (callback_payload (mention_event ''C1'')) ''type''"
    and ts2: "event_of (callback_payload (mention_event ''C2'')) ''ts'' =
      event_of (callback_payload (mention_event ''C1'')) ''ts''"
    by (simp_all add: sample_payload sample_event_ts sample_event_type)
  have win: "t_has (sample_clock 1010) - t_add (sample_clock 1000)
      \<le> real_of_int (ttl (event_cache sample_gateway))"
    by (simp add: sample_clock_def sample_gateway_def init_gateway_def init_cache_def)
  from event_identity_collision [OF ok sample_json(1) sample_payload(1)
      sample_request_verify(1) [OF sample_secret] ts sample_float_ts sample_fresh unseen
      sample_json(2) sample_payload(1) sample_request_verify(2) [OF sample_secret] ty ts2 win]
  show ?thesis
    by (simp add: sample_payload sample_identity sample_clock_def)
qed


text \<open>
  Claim C10. \<^verbatim>\<open>verify\<close> raises ValueError exactly when \<^verbatim>\<open>int\<close> does not parse the
  timestamp; the empty string, \<^verbatim>\<open>100.5\<close> and a timestamp behind the separator U+001F
  are such timestamps, and the empty string is what the handler passes when the header is
  absent. A request whose body
  parses and whose timestamp header does not then leaves the handler with the uncaught
  ValueError, which is answered with status 500 and not 401; the cache is unchanged and
  nothing is scheduled.
\<close>

theorem verify_unparseable_timestamp:
  "((verify H k now body timestamp signature = Inl ValueError) = (py_int timestamp = None)) \<and>
   py_int '''' = None \<and> py_int ''100.5'' = None \<and> py_int (CHR 0x1F # ''1000'') = None \<and>
   (x_slack_request_timestamp req = None \<longrightarrow> timestamp_header req = '''') \<and>
   (json_loads py (body_bytes req) = Some parsed \<and> py_int (timestamp_header req) = None \<longrightarrow>
      handle_event py gw clk req = (Raised ValueError, gw, []) \<and>
      status_code (fst (handle_event py gw clk req)) = 500)"
proof (intro conjI impI)
  show "(verify H k now body timestamp signature = Inl ValueError) = (py_int timestamp = None)"
    by (auto simp: verify_def compare_digest_def split: option.splits if_splits)
  show "py_int '''' = None" and "py_int ''100.5'' = None"
    and "py_int (CHR 0x1F # ''1000'') = None"
    by (simp_all add: py_int_eval)
  show "x_slack_request_timestamp req = None \<Longrightarrow> timestamp_header req = ''''"
    by (simp add: timestamp_header_def)
next
  assume a: "json_loads py (body_bytes req) = Some parsed \<and> py_int (timestamp_header req) = None"
  then show r: "handle_event py gw clk req = (Raised ValueError, gw, [])"
    by (simp add: handle_event_unfold verify_def)
  show "status_code (fst (handle_event py gw clk req)) = 500"
    by (simp add: r status_code_def)
qed

theorem verify_unparseable_timestamp_witness:
  "verify toy_hmac ''secret'' 1000 ''{C1}'' ''100.5''
     (my_signature toy_hmac ''secret'' ''100.5'' ''{C1}'') = Inl ValueError \<and>
   py_int (CHR 0x1F # ''1000'') = None \<and>
   handle_event sample_python sample_gateway (sample_clock 1000)
     \<lparr>x_slack_request_timestamp = None, x_slack_signature = Some ''v0=00'', body_bytes = ''{C1}''\<rparr>
     = (Raised ValueError, sample_gateway, []) \<and>
   status_code (fst (handle_event sample_python sample_gateway (sample_clock 1000)
     \<lparr>x_slack_request_timestamp = None, x_slack_signature = Some ''v0=00'', body_bytes = ''{C1}''\<rparr>))
     = 500"
proof -
  let ?req = "\<lparr>x_slack_request_timestamp = None, x_slack_signature = Some ''v0=00'',
      body_bytes = ''{C1}''\<rparr>"
  have j: "json_loads sample_python (body_bytes ?req) = Some (callback_payload (mention_event ''C1''))"
    by (simp add: sample_python_def sample_json_loads_def)
  have h: "x_slack_request_timestamp ?req = None"
    by simp
  note th = verify_unparseable_timestamp [where req = ?req and py = sample_python
      and parsed = "callback_payload (mention_event ''C1'')" and gw = sample_gateway
      and clk = "sample_clock 1000" and timestamp = "''100.5''" and H = toy_hmac
      and k = "''secret''" and now = 1000 and body = "''{C1}''"
      and signature = "my_signature toy_hmac ''secret'' ''100.5'' ''{C1}''"]
  from th h have e: "timestamp_header ?req = ''''" by blast
  from th have n: "py_int '''' = None" by blast
  from th show ?thesis
    using j e n by (simp add: status_code_def)
qed

text \<open>
  Claim C9 as stated fails: for the body \<^verbatim>\<open>{\<close>, which is not JSON, the handler is
  left by the parser's exception and the status is 500, not 400.
\<close>

theorem malformed_json_counterexample:
  "fst (handle_event sample_python sample_gateway (sample_clock 1000) (signed_request ''1000'' ''{''))
     = Raised JSONDecodeError \<and>
   status_code (fst (handle_event sample_python sample_gateway (sample_clock 1000)
     (signed_request ''1000'' ''{''))) = 500"
  by (simp add: handle_event_unfold sample_python_def sample_json_loads_def signed_request_def
      status_code_def)

text \<open>
  Claim C9, amended. When the body is not JSON, the parser's exception leaves the handler
  before the signature is looked at; the status is 500, the gateway is unchanged and no
  background task is scheduled.
\<close>

theorem malformed_json_raises:
  "json_loads py (body_bytes req) = None \<longrightarrow>
     handle_event py gw clk req = (Raised JSONDecodeError, gw, []) \<and>
     status_code (fst (handle_event py gw clk req)) = 500 \<and>
     run_tasks env w (snd (snd (handle_event py gw clk req))) = w"
  by (simp add: handle_event_unfold status_code_def run_tasks_Nil)

theorem malformed_json_raises_witness:
  "handle_event sample_python sample_gateway (sample_clock 1000) (signed_request ''1000'' ''{'')
     = (Raised JSONDecodeError, sample_gateway, []) \<and>
   run_tasks backend_down empty_world
     (snd (snd (handle_event sample_python sample_gateway (sample_clock 1000)
        (signed_request ''1000'' ''{'')))) = empty_world"
proof -
  have j: "json_loads sample_python (body_bytes (signed_request ''1000'' ''{'')) = None"
    by (simp add: sample_python_def sample_json_loads_def signed_request_def)
  from malformed_json_raises [where py = sample_python and req = "signed_request ''1000'' ''{''"
      and gw = sample_gateway and clk = "sample_clock 1000" and env = backend_down
      and w = empty_world] j
  show ?thesis by (simp add: run_tasks_Nil)
qed

section \<open>Properties of the normalizer\<close>

lemma not_id_char_close: "\<not> is_id_char (CHR ''>'')"
  by (simp add: is_id_char_def)

lemma match_mention_iff:
  "(match_mention s = Some rest) =
   (\<exists>ident. ident \<noteq> [] \<and> (\<forall>c \<in> set ident. is_id_char c) \<and> s = ''<@'' @ ident @ ''>'' @ rest)"
proof
  assume m: "match_mention s = Some rest"
  then obtain a b r where s: "s = a # b # r"
    by (cases s rule: list.exhaust; cases "tl s") (auto simp: match_mention_def)
  from m have ab: "a = CHR ''<''" "b = CHR ''@''" and ne: "takeWhile is_id_char r \<noteq> []"
    and d: "dropWhile is_id_char r = CHR ''>'' # rest"
    unfolding s match_mention_def by (auto split: if_splits list.splits)
  have "r = takeWhile is_id_char r @ dropWhile is_id_char r" by simp
  then have "s = ''<@'' @ takeWhile is_id_char r @ ''>'' @ rest"
    using ab d by (simp add: s)
  moreover have "\<forall>c \<in> set (takeWhile is_id_char r). is_id_char c"
    by (auto dest: set_takeWhileD)
  ultimately show "\<exists>ident. ident \<noteq> [] \<and> (\<forall>c \<in> set ident. is_id_char c) \<and>
      s = ''<@'' @ ident @ ''>'' @ rest"
    using ne by blast
next
  assume "\<exists>ident. ident \<noteq> [] \<and> (\<forall>c \<in> set ident. is_id_char c) \<and> s = ''<@'' @ ident @ ''>'' @ rest"
  then obtain ident where ne: "ident \<noteq> []" and al: "\<forall>c \<in> set ident. is_id_char c"
    and s: "s = ''<@'' @ ident @ ''>'' @ rest"
    by blast
  have t: "takeWhile is_id_char (ident @ CHR ''>'' # rest) = ident"
    using al by (simp add: takeWhile_append2 not_id_char_close)
  have d: "dropWhile is_id_char (ident @ CHR ''>'' # rest) = CHR ''>'' # rest"
    using al by (simp add: dropWhile_append2 not_id_char_close)
  show "match_mention s = Some rest"
    using ne by (simp add: s match_mention_def t d)
qed

lemma re_sub_mentions_token:
  assumes "ident \<noteq> []" and "\<forall>c \<in> set ident. is_id_char c"
  shows "re_sub_mentions (''<@'' @ ident @ ''>'' @ rest) = re_sub_mentions rest"
proof -
  have "match_mention (''<@'' @ ident @ ''>'' @ rest) = Some rest"
    unfolding match_mention_iff using assms by blast
  then show ?thesis by simp
qed

lemma re_sub_mentions_keep:
  assumes "match_mention (c # cs) = None"
  shows "re_sub_mentions (c # cs) = c # re_sub_mentions cs"
  using assms by simp

lemma fetch_username_ok:
  assumes "users_info env u = Inr name \<or> users_info env u = Inl SlackApiError"
  shows "\<exists>w' n. fetch_username env w u = (w', Inr n)"
  using assms by (auto simp: fetch_username_def)

text \<open>
  Claim C7, amended. For an event that has the fields \<^verbatim>\<open>channel\<close>, \<^verbatim>\<open>ts\<close> and
  \<^verbatim>\<open>user\<close>, and a user lookup that returns a name or fails with SlackApiError,
  \<^verbatim>\<open>normalize\<close> returns a request whose text is the event text with the mentions
  removed and the surrounding whitespace stripped, whose raw text is the event text, and
  whose context holds the conversation id \<^verbatim>\<open>channel:thread_ts\<close>, the thread
  defaulting to the event's own \<^verbatim>\<open>ts\<close>. Removing the mentions means: where the text
  starts with \<^verbatim>\<open><@\<close>, a non-empty run of characters A-Z and 0-9 and \<^verbatim>\<open>>\<close>, these
  are dropped and the rest is treated the same way; where it does not, its first
  character is kept.
\<close>

theorem normalize_request:
  assumes "event ''channel'' = Some channel" and "event ''ts'' = Some ts"
    and "event ''user'' = Some user"
    and "users_info env (Some user) = Inr name \<or> users_info env (Some user) = Inl SlackApiError"
  shows "(\<exists>w' r. normalize env w event = (w', Inr r) \<and>
            req_text r = strip (re_sub_mentions (get_default event ''text'' '''')) \<and>
            req_raw_text r = get_default event ''text'' '''' \<and>
            map_of (req_context r) ''conversation_id'' =
              Some (channel @ '':'' @ (case event ''thread_ts'' of None \<Rightarrow> ts | Some t \<Rightarrow> t))) \<and>
         (\<forall>ident rest. ident \<noteq> [] \<and> (\<forall>c \<in> set ident. is_id_char c) \<longrightarrow>
            re_sub_mentions (''<@'' @ ident @ ''>'' @ rest) = re_sub_mentions rest) \<and>
         (\<forall>c cs. (\<forall>ident rest. ident \<noteq> [] \<and> (\<forall>c \<in> set ident. is_id_char c) \<longrightarrow>
                     c # cs \<noteq> ''<@'' @ ident @ ''>'' @ rest) \<longrightarrow>
            re_sub_mentions (c # cs) = c # re_sub_mentions cs)"
proof (intro conjI allI impI)
  obtain w' n where f: "fetch_username env w (event ''user'') = (w', Inr n)"
    using fetch_username_ok [OF assms(4), of w] assms(3) by auto
  show "\<exists>w' r. normalize env w event = (w', Inr r) \<and>
            req_text r = strip (re_sub_mentions (get_default event ''text'' '''')) \<and>
            req_raw_text r = get_default event ''text'' '''' \<and>
            map_of (req_context r) ''conversation_id'' =
              Some (channel @ '':'' @ (case event ''thread_ts'' of None \<Rightarrow> ts | Some t \<Rightarrow> t))"
    using assms(1-3) f
    by (simp add: normalize_def Let_def clean_bot_mentions_def get_default_def)
next
  fix ident rest
  assume "ident \<noteq> [] \<and> (\<forall>c \<in> set ident. is_id_char c)"
  then show "re_sub_mentions (''<@'' @ ident @ ''>'' @ rest) = re_sub_mentions rest"
    by (intro re_sub_mentions_token) simp_all
next
  fix c cs
  assume n: "\<forall>ident rest. ident \<noteq> [] \<and> (\<forall>c \<in> set ident. is_id_char c) \<longrightarrow>
                     c # cs \<noteq> ''<@'' @ ident @ ''>'' @ rest"
  have "match_mention (c # cs) = None"
  proof (cases "match_mention (c # cs)")
    case None
    then show ?thesis .
  next
    case (Some rest)
    then obtain ident where "ident \<noteq> []" "\<forall>c \<in> set ident. is_id_char c"
      "c # cs = ''<@'' @ ident @ ''>'' @ rest"
      unfolding match_mention_iff by blast
    with n show ?thesis by blast
  qed
  then show "re_sub_mentions (c # cs) = c # re_sub_mentions cs"
    by (rule re_sub_mentions_keep)
qed

theorem normalize_request_witness:
  "(\<exists>w' r. normalize backend_down empty_world (thread_event None) = (w', Inr r) \<and>
      req_text r = ''deploy the service'' \<and>
      req_raw_text r = ''<@U123> deploy the service'' \<and>
      map_of (req_context r) ''conversation_id'' = Some ''C1:100.5'') \<and>
   (\<exists>w' r. normalize backend_down empty_world (thread_event (Some ''50.0'')) = (w', Inr r) \<and>
      map_of (req_context r) ''conversation_id'' = Some ''C1:50.0'') \<and>
   re_sub_mentions ''<@U123> deploy'' = re_sub_mentions '' deploy'' \<and>
   re_sub_mentions ''<@u1>'' = CHR ''<'' # re_sub_mentions ''@u1>''"
proof -
  have c: "clean_bot_mentions ''<@U123> deploy the service'' = ''deploy the service''"
    by (simp add: clean_bot_mentions_def match_mention_def is_id_char_def strip_def is_space_def)
  have u: "users_info backend_down (Some ''U1'') = Inr ''alice'' \<or>
           users_info backend_down (Some ''U1'') = Inl SlackApiError"
    by (simp add: backend_down_def)
  have f: "thread_event th ''channel'' = Some ''C1''" "thread_event th ''ts'' = Some ''100.5''"
    "thread_event th ''user'' = Some ''U1''" "thread_event th ''thread_ts'' = th"
    "get_default (thread_event th) ''text'' '''' = ''<@U123> deploy the service''" for th
    by (simp_all add: thread_event_def get_default_def)
  note th1 = normalize_request [where env = backend_down and w = empty_world,
      OF f(1-3) [of None] u]
  note th2 = normalize_request [where env = backend_down and w = empty_world,
      OF f(1-3) [of "Some ''50.0''"] u]
  have 1: "\<exists>w' r. normalize backend_down empty_world (thread_event None) = (w', Inr r) \<and>
      req_text r = ''deploy the service'' \<and>
      req_raw_text r = ''<@U123> deploy the service'' \<and>
      map_of (req_context r) ''conversation_id'' = Some ''C1:100.5''"
    using th1 c by (simp add: f clean_bot_mentions_def)
  have 2: "\<exists>w' r. normalize backend_down empty_world (thread_event (Some ''50.0'')) = (w', Inr r) \<and>
      map_of (req_context r) ''conversation_id'' = Some ''C1:50.0''"
    using th2 by (auto simp: f)
  have i: "''U123'' \<noteq> [] \<and> (\<forall>c \<in> set ''U123''. is_id_char c)"
    by (simp add: is_id_char_def)
  from th1 i have 3: "re_sub_mentions (''<@'' @ ''U123'' @ ''>'' @ '' deploy'') =
      re_sub_mentions '' deploy''"
    by blast
  have n: "\<forall>ident rest. ident \<noteq> [] \<and> (\<forall>c \<in> set ident. is_id_char c) \<longrightarrow>
      CHR ''<'' # ''@u1>'' \<noteq> ''<@'' @ ident @ ''>'' @ rest"
  proof (intro allI impI)
    fix ident :: string and rest :: string
    assume a: "ident \<noteq> [] \<and> (\<forall>c \<in> set ident. is_id_char c)"
    then obtain x xs where x: "ident = x # xs" by (cases ident) auto
    with a have "is_id_char x" by simp
    then have "x \<noteq> CHR ''u''" by (auto simp: is_id_char_def)
    then show "CHR ''<'' # ''@u1>'' \<noteq> ''<@'' @ ident @ ''>'' @ rest"
      by (simp add: x)
  qed
  from th1 n have 4: "re_sub_mentions (CHR ''<'' # ''@u1>'') =
      CHR ''<'' # re_sub_mentions ''@u1>''"
    by blast
  from 1 2 3 4 show ?thesis by simp
qed

text \<open>
  Claim C7 as stated fails for an event without a \<^verbatim>\<open>user\<close> field: \<^verbatim>\<open>normalize\<close>
  raises KeyError and produces no request.
\<close>

theorem normalize_missing_user_counterexample:
  "snd (normalize backend_down empty_world anonymous_event) = Inl (KeyError ''user'')"
  by (simp add: normalize_def fetch_username_def backend_down_def anonymous_event_def
      get_default_def Let_def)

section \<open>Properties of the background phase\<close>

lemma fetch_username_cases:
  "fetch_username env w u =
     (case users_info env u of
        Inr name \<Rightarrow> (w, Inr name)
      | Inl e \<Rightarrow> if e = SlackApiError then (w\<lparr>effects := effects w @ [LogError e]\<rparr>, Inr ''unknown'')
                 else (w, Inl e))"
  unfolding fetch_username_def log_error_def by (rule refl)

lemma normalize_fst: "fst (normalize env w event) = fst (fetch_username env w (event ''user''))"
  by (simp add: normalize_def Let_def split: prod.splits sum.splits option.splits)

lemma normalize_snd_indep: "snd (normalize env w event) = snd (normalize env w' event)"
  by (simp add: normalize_def fetch_username_cases Let_def
      split: prod.splits sum.splits option.splits)

lemma normalize_ok_lookup:
  assumes "snd (normalize env w event) = Inr r"
  shows "\<exists>user. event ''user'' = Some user \<and>
           ((\<exists>n. users_info env (Some user) = Inr n) \<or>
            users_info env (Some user) = Inl SlackApiError)"
proof -
  from assms obtain user where u: "event ''user'' = Some user"
    by (cases "event ''user''")
       (auto simp: normalize_def Let_def split: prod.splits sum.splits option.splits)
  from assms have "\<exists>w' n. fetch_username env w (event ''user'') = (w', Inr n)"
    by (auto simp: normalize_def Let_def split: prod.splits sum.splits)
  then have "(\<exists>n. users_info env (Some user) = Inr n) \<or>
      users_info env (Some user) = Inl SlackApiError"
    unfolding u by (auto simp: fetch_username_cases split: sum.splits if_splits)
  with u show ?thesis by blast
qed

lemma handle_event_tasks_ok:
  assumes "snd (snd (handle_event py gw clk req)) \<noteq> []"
  shows "fst (handle_event py gw clk req) = Returned Ok"
proof -
  from handle_event_tasks [OF assms] obtain body where
    h: "handle_event py gw clk req = handle_event_callback py gw clk (event_of body)"
    by blast
  let ?ev = "event_of body"
  from assms have t: "snd (snd (handle_event_callback py gw clk ?ev)) \<noteq> []"
    by (simp add: h)
  obtain ts where ts: "?ev ''ts'' = Some ts"
    using t by (cases "?ev ''ts''") (simp_all add: handle_event_callback_unfold)
  obtain x where x: "py_float py ts = Some x"
    using t ts by (cases "py_float py ts") (simp_all add: handle_event_callback_unfold)
  have fresh: "\<not> float_gt (float_rsub (t_fresh clk) x) 60"
  proof
    assume "float_gt (float_rsub (t_fresh clk) x) 60"
    with t ts x show False by (simp add: handle_event_callback_unfold)
  qed
  have unseen: "\<not> fst (has_event (event_cache gw) (event_identity ?ev) (t_has clk))"
  proof
    assume "fst (has_event (event_cache gw) (event_identity ?ev) (t_has clk))"
    from callback_seen [OF ts x this] t show False by simp
  qed
  from callback_new [OF ts x fresh unseen] show ?thesis by (simp add: h)
qed

text \<open>
  Claim C6. Take an event with a channel and a timestamp for which \<^verbatim>\<open>normalize\<close>
  succeeds, so that the background phase reaches the forward step, and let the call to the
  agent backend fail. Then the body of the \<^verbatim>\<open>try\<close> is left by the
  \<^verbatim>\<open>HTTPException\<close> with status 502 that the forwarder raises; the conversation file
  has the user's message appended; the effects are, in this order, the append, the
  request to the backend, the forwarder's error log entry and the error log entry of
  \<^verbatim>\<open>_process_event_async\<close> (with a log entry before the append and one after it when
  the user lookup failed); no message is posted; and a handler that scheduled a task has
  returned \<^verbatim>\<open>{"ok": True}\<close>.
\<close>

theorem forward_failure_logged:
  assumes ch: "event ''channel'' = Some channel" and ts: "event ''ts'' = Some ts"
    and norm: "snd (normalize env w event) = Inr r"
    and down: "requests_post env r = Inl RequestException"
    and conv: "conv = channel @ '':'' @ get_default event ''thread_ts'' ts"
    and clean: "clean = clean_bot_mentions (get_default event ''text'' '''')"
    and username: "username = (case users_info env (event ''user'') of
                     Inr n \<Rightarrow> n | Inl e \<Rightarrow> get_default event ''user'' ''unknown'')"
    and lg: "lg = (case users_info env (event ''user'') of Inr n \<Rightarrow> [] | Inl e \<Rightarrow> [LogError e])"
  shows "snd (process_event_body env w event True) = Inl (HTTPException 502) \<and>
         history (process_event_async env w event event_type True) =
           history_append (history w) conv ''user'' clean (Some username) \<and>
         effects (process_event_async env w event event_type True) =
           effects w @ lg @ [Append conv ''user'' clean (Some username)] @ lg @
             [Forward r, LogError RequestException, LogError (HTTPException 502)] \<and>
         (\<forall>c t x. Post c t x \<in> set (effects (process_event_async env w event event_type True))
            \<longrightarrow> Post c t x \<in> set (effects w)) \<and>
         (snd (snd (handle_event py gw clk req)) \<noteq> [] \<longrightarrow>
            fst (handle_event py gw clk req) = Returned Ok)"
proof -
  from normalize_ok_lookup [OF norm] obtain user where u: "event ''user'' = Some user"
    and lk: "(\<exists>n. users_info env (Some user) = Inr n) \<or> users_info env (Some user) = Inl SlackApiError"
    by blast
  have nrm: "normalize env w' event = (fst (fetch_username env w' (Some user)), Inr r)" for w'
    using norm normalize_snd_indep [of env w' event w] normalize_fst [of env w' event]
    by (simp add: u prod_eq_iff)
  have body: "process_event_body env w event True =
      (w\<lparr>history := history_append (history w) conv ''user'' clean (Some username),
         effects := effects w @ lg @ [Append conv ''user'' clean (Some username)] @ lg @
             [Forward r, LogError RequestException]\<rparr>, Inl (HTTPException 502))"
  proof -
    from lk show ?thesis
    proof
      assume "\<exists>n. users_info env (Some user) = Inr n"
      then obtain n where n: "users_info env (Some user) = Inr n" by blast
      show ?thesis
        by (simp add: process_event_body_def ch ts u n Let_def nrm fetch_username_cases
            forward_request_def down log_error_def conv clean username lg)
    next
      assume e: "users_info env (Some user) = Inl SlackApiError"
      show ?thesis
        by (simp add: process_event_body_def ch ts u e Let_def nrm fetch_username_cases
            forward_request_def down log_error_def conv clean username lg)
    qed
  qed
  have lgl: "\<forall>x \<in> set lg. \<exists>e. x = LogError e"
    by (auto simp: lg split: sum.splits)
  have 1: "snd (process_event_body env w event True) = Inl (HTTPException 502)"
    by (simp add: body)
  have 2: "history (process_event_async env w event event_type True) =
           history_append (history w) conv ''user'' clean (Some username)"
    by (simp add: process_event_async_def body log_error_def)
  have 3: "effects (process_event_async env w event event_type True) =
           effects w @ lg @ [Append conv ''user'' clean (Some username)] @ lg @
             [Forward r, LogError RequestException, LogError (HTTPException 502)]"
    by (simp add: process_event_async_def body log_error_def)
  have 4: "\<forall>c t x. Post c t x \<in> set (effects (process_event_async env w event event_type True))
            \<longrightarrow> Post c t x \<in> set (effects w)"
    using lgl unfolding 3 by auto
  have 5: "snd (snd (handle_event py gw clk req)) \<noteq> [] \<longrightarrow>
            fst (handle_event py gw clk req) = Returned Ok"
    by (simp add: handle_event_tasks_ok)
  from 1 2 3 4 5 show ?thesis by blast
qed


theorem forward_failure_logged_witness:
  "history (process_event_async backend_down empty_world (thread_event None)
              (Some ''app_mention'') True) ''C1_100.5.jsonl'' =
     [\<lparr>msg_role = ''user'', msg_name = Some ''alice'',
       msg_content = Some ''deploy the service''\<rparr>] \<and>
   (\<exists>r. effects (process_event_async backend_down empty_world (thread_event None)
                   (Some ''app_mention'') True) =
      [Append ''C1:100.5'' ''user'' ''deploy the service'' (Some ''alice''),
       Forward r, LogError RequestException, LogError (HTTPException 502)])"
proof -
  let ?ev = "thread_event None"
  have f: "?ev ''channel'' = Some ''C1''" "?ev ''ts'' = Some ''100.5''"
    "?ev ''user'' = Some ''U1''"
    "get_default ?ev ''thread_ts'' ''100.5'' = ''100.5''"
    "get_default ?ev ''text'' '''' = ''<@U123> deploy the service''"
    by (simp_all add: thread_event_def get_default_def)
  have c: "clean_bot_mentions ''<@U123> deploy the service'' = ''deploy the service''"
    by (simp add: clean_bot_mentions_def match_mention_def is_id_char_def strip_def is_space_def)
  have "\<exists>r. snd (normalize backend_down empty_world ?ev) = Inr r"
    by (simp add: normalize_def fetch_username_def backend_down_def Let_def f)
  then obtain r where norm: "snd (normalize backend_down empty_world ?ev) = Inr r"
    by blast
  have down: "requests_post backend_down r = Inl RequestException"
    by (simp add: backend_down_def)
  have u: "users_info backend_down x = Inr ''alice''" for x
    by (simp add: backend_down_def)
  have p: "history_path ''C1:100.5'' = ''C1_100.5.jsonl''"
    by (simp add: history_path_def replace_char_def)
  from forward_failure_logged [OF f(1,2) norm down refl refl refl refl,
      where event_type = "Some ''app_mention''" and py = sample_python
      and gw = sample_gateway and clk = "sample_clock 1000"
      and req = "signed_request ''1000'' ''{C1}''"]
  have h: "history (process_event_async backend_down empty_world ?ev (Some ''app_mention'') True) =
      history_append (history empty_world) ''C1:100.5'' ''user'' ''deploy the service''
        (Some ''alice'')"
    and e: "effects (process_event_async backend_down empty_world ?ev (Some ''app_mention'') True) =
      [Append ''C1:100.5'' ''user'' ''deploy the service'' (Some ''alice''),
       Forward r, LogError RequestException, LogError (HTTPException 502)]"
    by (simp_all add: f c u empty_world_def)
  have "history_append (history empty_world) ''C1:100.5'' ''user'' ''deploy the service''
        (Some ''alice'') ''C1_100.5.jsonl'' =
     [\<lparr>msg_role = ''user'', msg_name = Some ''alice'',
       msg_content = Some ''deploy the service''\<rparr>]"
    by (simp add: history_append_def p Let_def empty_world_def replace_char_def)
  with h e show ?thesis by auto
qed

end
